theory Spec2Isabelle
  imports Main "HOL-Library.Multiset"
begin

section \<open>Data model of \<^verbatim>\<open>src/App.tsx\<close>\<close>

text \<open>
  \<^verbatim>\<open>type Color = 'red' | 'blue' | 'green' | 'yellow' | null\<close>: the four colours are a
  datatype and \<^verbatim>\<open>null\<close> is \<open>None\<close> of \<open>color option\<close>.
  \<^verbatim>\<open>type CardValue = number | ActionValue | WildValue | string\<close>: a number or a string,
  compared with \<^verbatim>\<open>===\<close>.
\<close>

datatype color = Red | Blue | Green | Yellow

datatype card_type = Number | Action | Wild

datatype card_value = NumV int | StrV string

text \<open>
  \<^verbatim>\<open>type Card = { id; type; color; value }\<close>. Card objects are never mutated, so an
  object is modelled by its record value; \<^verbatim>\<open>includes\<close> (reference identity) is record
  equality, which is the same thing as long as distinct objects carry distinct ids.
\<close>

record card =
  cid :: string
  ctype :: card_type
  color :: "color option"
  cvalue :: card_value

text \<open>
  The status line of the session. The source stores a display string; the model keeps
  which of the six texts it is (and the seats it names).
\<close>

datatype message =
  MsgYourTurn
  | MsgYouWon
  | MsgAiTurn
  | MsgYouDrew
  | MsgAiWon nat
  | MsgSkipped nat nat

record GameState =
  deck :: "card list"
  discard :: "card list"
  hands :: "card list list"
  currentColor :: "color option"
  currentPlayerIdx :: nat
  direction :: int
  gameOver :: bool
  winner :: "nat option"
  message :: message
  selectedColor :: "color option"
  selectedCards :: "nat list"
  skipNextPlayer :: bool

definition COLORS :: "color list" where
  "COLORS = [Red, Blue, Green, Yellow]"

definition ACTION_CARDS :: "card_value list" where
  "ACTION_CARDS = [StrV ''Skip'', StrV ''Reverse'', StrV ''Draw2'']"

section \<open>The random source\<close>

text \<open>
  \<^verbatim>\<open>xs.sort(() => Math.random() - 0.5)\<close> rearranges the array; which rearrangement comes
  out depends on the random numbers. The model reads the outcome from a seed, a list of
  picks: each pick selects the next element among those not yet placed. When the seed
  runs out the remaining elements keep their order.
\<close>

fun shuffle :: "nat list \<Rightarrow> 'a list \<Rightarrow> 'a list" where
  "shuffle [] xs = xs"
| "shuffle (r # rs) xs =
     (if xs = [] then []
      else let i = r mod length xs
           in xs ! i # shuffle rs (take i xs @ drop (Suc i) xs))"

section \<open>Deck construction\<close>

definition mkCard :: "card_type \<Rightarrow> color option \<Rightarrow> card_value \<Rightarrow> string \<Rightarrow> card" where
  "mkCard t c v i = \<lparr>cid = i, ctype = t, color = c, cvalue = v\<rparr>"

text \<open>
  The three loops of \<^verbatim>\<open>generateDeck\<close>, in push order; each entry still waits for the id
  that \<^verbatim>\<open>randId()\<close> gives it.
\<close>

definition numberCards :: "(string \<Rightarrow> card) list" where
  "numberCards =
     concat (map (\<lambda>c. concat (map (\<lambda>num.
        if num \<noteq> 0
        then [mkCard Number (Some c) (NumV num), mkCard Number (Some c) (NumV num)]
        else [mkCard Number (Some c) (NumV num)]) [0..9])) COLORS)"

definition actionCards :: "(string \<Rightarrow> card) list" where
  "actionCards =
     concat (map (\<lambda>c. concat (map (\<lambda>action.
        [mkCard Action (Some c) action, mkCard Action (Some c) action]) ACTION_CARDS)) COLORS)"

definition wildCards :: "(string \<Rightarrow> card) list" where
  "wildCards =
     concat (map (\<lambda>i::nat.
        [mkCard Wild None (StrV ''Wild''), mkCard Wild None (StrV ''Wild+4'')]) [0..<4])"

text \<open>
  \<^verbatim>\<open>generateDeck\<close>: \<open>rid k\<close> is the result of the \<open>k\<close>-th call of \<^verbatim>\<open>randId()\<close>, \<open>seed\<close>
  the outcome of the final shuffle.
\<close>

definition unshuffledDeck :: "(nat \<Rightarrow> string) \<Rightarrow> card list" where
  "unshuffledDeck rid =
     map (\<lambda>(k, f). f (rid k)) (enumerate 0 (numberCards @ actionCards @ wildCards))"

definition generateDeck :: "(nat \<Rightarrow> string) \<Rightarrow> nat list \<Rightarrow> card list" where
  "generateDeck rid seed = shuffle seed (unshuffledDeck rid)"

section \<open>Legality rules\<close>

text \<open>\<^verbatim>\<open>Card | undefined\<close> is \<open>card option\<close>.\<close>

definition canCardBePlayed :: "card option \<Rightarrow> card option \<Rightarrow> color option \<Rightarrow> bool" where
  "canCardBePlayed crd topCard activeColor =
     (case crd of None \<Rightarrow> False
      | Some c \<Rightarrow>
        (case topCard of None \<Rightarrow> False
         | Some t \<Rightarrow>
           if ctype c = Wild then True
           else if color c = activeColor then True
           else if cvalue c = cvalue t then True
           else False))"

definition canPlayMultipleCards :: "card list \<Rightarrow> card option \<Rightarrow> color option \<Rightarrow> bool" where
  "canPlayMultipleCards cards topCard activeColor =
     (if cards = [] \<or> topCard = None then False
      else if length cards = 1 then canCardBePlayed (Some (hd cards)) topCard activeColor
      else if \<not> list_all (\<lambda>c. cvalue c = cvalue (hd cards)) cards then False
      else if \<not> canCardBePlayed (Some (hd cards)) topCard activeColor then False
      else True)"

section \<open>Drawing and recycling\<close>

text \<open>
  The loop of \<^verbatim>\<open>drawCardsFromDeck\<close>. The first argument counts the iterations left,
  \<open>seeds\<close> holds one seed for each reshuffle still to come. The top of a pile is the
  end of the list (\<^verbatim>\<open>pop\<close>). \<^verbatim>\<open>currentDiscard\<close> is only read.
\<close>

fun drawLoop ::
  "nat \<Rightarrow> nat list list \<Rightarrow> card list \<Rightarrow> card list \<Rightarrow> card list \<Rightarrow> card list \<times> card list"
where
  "drawLoop 0 seeds currentDiscard newDeck drawn = (drawn, newDeck)"
| "drawLoop (Suc n) seeds currentDiscard newDeck drawn =
     (if newDeck = [] then
        (if length currentDiscard > 1 then
           (let d = shuffle (case seeds of [] \<Rightarrow> [] | r # _ \<Rightarrow> r) (butlast currentDiscard);
                rest = (case seeds of [] \<Rightarrow> [] | _ # rs \<Rightarrow> rs)
            in if d \<noteq> [] then drawLoop n rest currentDiscard (butlast d) (drawn @ [last d])
               else drawLoop n rest currentDiscard d drawn)
         else (drawn, newDeck))
      else drawLoop n seeds currentDiscard (butlast newDeck) (drawn @ [last newDeck]))"

definition drawCardsFromDeck ::
  "nat list list \<Rightarrow> nat \<Rightarrow> card list \<Rightarrow> card list \<Rightarrow> card list \<times> card list"
where
  "drawCardsFromDeck seeds cnt currentDeck currentDiscard =
     drawLoop cnt seeds currentDiscard currentDeck []"

text \<open>
  The routine once more, on arrays in a store, to tell what it writes to. An array is
  an address; \<^verbatim>\<open>[...currentDeck]\<close>, \<^verbatim>\<open>[]\<close> and \<^verbatim>\<open>slice(0, -1)\<close> make a new array,
  \<^verbatim>\<open>sort\<close>, \<^verbatim>\<open>pop\<close> and \<^verbatim>\<open>push\<close> write to the array they are called on. The result is
  the pair of the arrays \<^verbatim>\<open>drawn\<close> and \<^verbatim>\<open>newDeck\<close>, and the store the call leaves behind.
\<close>

record heap =
  arrays :: "nat \<Rightarrow> card list"
  fresh :: nat

definition alloc :: "card list \<Rightarrow> heap \<Rightarrow> nat \<times> heap" where
  "alloc xs h = (fresh h, h\<lparr>arrays := (arrays h)(fresh h := xs), fresh := Suc (fresh h)\<rparr>)"

definition popPush :: "nat \<Rightarrow> nat \<Rightarrow> heap \<Rightarrow> heap" where
  "popPush newDeck drawn h =
     (let x = last (arrays h newDeck);
          h1 = h\<lparr>arrays := (arrays h)(newDeck := butlast (arrays h newDeck))\<rparr>
      in h1\<lparr>arrays := (arrays h1)(drawn := arrays h1 drawn @ [x])\<rparr>)"

fun drawLoopH :: "nat \<Rightarrow> nat list list \<Rightarrow> nat \<Rightarrow> nat \<Rightarrow> nat \<Rightarrow> heap \<Rightarrow> nat \<times> heap" where
  "drawLoopH 0 seeds currentDiscard newDeck drawn h = (newDeck, h)"
| "drawLoopH (Suc n) seeds currentDiscard newDeck drawn h =
     (if arrays h newDeck = [] then
        (if length (arrays h currentDiscard) > 1 then
           (let (a, h1) = alloc (butlast (arrays h currentDiscard)) h;
                h2 = h1\<lparr>arrays := (arrays h1)
                        (a := shuffle (case seeds of [] \<Rightarrow> [] | r # _ \<Rightarrow> r) (arrays h1 a))\<rparr>;
                rest = (case seeds of [] \<Rightarrow> [] | _ # rs \<Rightarrow> rs)
            in if arrays h2 a \<noteq> [] then drawLoopH n rest currentDiscard a drawn (popPush a drawn h2)
               else drawLoopH n rest currentDiscard a drawn h2)
         else (newDeck, h))
      else drawLoopH n seeds currentDiscard newDeck drawn (popPush newDeck drawn h))"

definition drawCardsFromDeckH ::
  "nat list list \<Rightarrow> nat \<Rightarrow> nat \<Rightarrow> nat \<Rightarrow> heap \<Rightarrow> (nat \<times> nat) \<times> heap" where
  "drawCardsFromDeckH seeds cnt currentDeck currentDiscard h =
     (let (newDeck, h1) = alloc (arrays h currentDeck) h;
          (drawn, h2) = alloc [] h1;
          (newDeck', h3) = drawLoopH cnt seeds currentDiscard newDeck drawn h2
      in ((drawn, newDeck'), h3))"

section \<open>Seat order\<close>

text \<open>
  \<^verbatim>\<open>clockwiseOrder.indexOf\<close> gives \<open>-1\<close> for a seat that is not in the ring; reading
  the array out of range does not happen, since the position is reduced modulo 4.
\<close>

definition clockwiseOrder :: "nat list" where
  "clockwiseOrder = [0, 3, 1, 2]"

fun indexOf :: "nat list \<Rightarrow> nat \<Rightarrow> int" where
  "indexOf [] x = -1"
| "indexOf (y # ys) x =
     (if y = x then 0 else (let r = indexOf ys x in if r < 0 then -1 else r + 1))"

definition getNextPlayerIdx :: "nat \<Rightarrow> int \<Rightarrow> nat" where
  "getNextPlayerIdx currentIdx dir =
     (let currentPosition = indexOf clockwiseOrder currentIdx;
          nextPosition = (if dir = 1 then (currentPosition + 1) mod 4
                          else (currentPosition - 1 + 4) mod 4)
      in clockwiseOrder ! nat nextPosition)"

section \<open>Sessions\<close>

text \<open>
  Every session the code builds has four hands, and no update changes their number.
  Where a property reads or writes a hand by its seat it assumes just that,
  \<open>length (hands s) = 4\<close>; the seats are 0 for the human and 1, 2, 3 for the opponents.
\<close>

text \<open>
  \<^verbatim>\<open>newDeck.splice(-7)\<close> takes the last seven cards off the pile (all of them when
  there are fewer) and returns them in pile order; the loop of \<^verbatim>\<open>initialState\<close> does it
  once for each seat, seat 0 first.
\<close>

fun dealHands :: "nat \<Rightarrow> card list \<Rightarrow> card list list \<times> card list" where
  "dealHands 0 d = ([], d)"
| "dealHands (Suc n) d =
     (let (hs, d') = dealHands n (take (length d - 7) d)
      in (drop (length d - 7) d # hs, d'))"

text \<open>
  \<^verbatim>\<open>initialState\<close>. The starter is \<^verbatim>\<open>newDeck.pop()\<close>, the last card of the fresh deck
  (the deck is never empty, see \<open>length_generateDeck\<close> below).
\<close>

definition initialState :: "(nat \<Rightarrow> string) \<Rightarrow> nat list \<Rightarrow> GameState" where
  "initialState rid seed =
     (let newDeck = generateDeck rid seed;
          starter = last newDeck;
          (hs, d) = dealHands 4 (butlast newDeck)
      in \<lparr>deck = d, discard = [starter], hands = hs,
          currentColor = (case color starter of None \<Rightarrow> Some Red | Some c \<Rightarrow> Some c),
          currentPlayerIdx = 0, direction = 1, gameOver = False, winner = None,
          message = MsgYourTurn, selectedColor = None, selectedCards = [],
          skipNextPlayer = False\<rparr>)"

text \<open>\<^verbatim>\<open>resetGame\<close> builds the same session again and replaces the old one with it.\<close>

definition resetGame :: "(nat \<Rightarrow> string) \<Rightarrow> nat list \<Rightarrow> GameState \<Rightarrow> GameState" where
  "resetGame rid seed prev =
     (let newDeck = generateDeck rid seed;
          starter = last newDeck;
          (hs, d) = dealHands 4 (butlast newDeck)
      in \<lparr>deck = d, discard = [starter], hands = hs,
          currentColor = (case color starter of None \<Rightarrow> Some Red | Some c \<Rightarrow> Some c),
          currentPlayerIdx = 0, direction = 1, gameOver = False, winner = None,
          message = MsgYourTurn, selectedColor = None, selectedCards = [],
          skipNextPlayer = False\<rparr>)"

definition toggleCardSelection :: "nat \<Rightarrow> GameState \<Rightarrow> GameState" where
  "toggleCardSelection cardIndex prev =
     (if \<not> cardIndex < length (hands prev ! 0) then prev
      else if cardIndex \<in> set (selectedCards prev)
      then prev\<lparr>selectedCards := filter (\<lambda>i. i \<noteq> cardIndex) (selectedCards prev)\<rparr>
      else prev\<lparr>selectedCards := selectedCards prev @ [cardIndex]\<rparr>)"

text \<open>The buttons of the colour picker: \<^verbatim>\<open>({ ...prev, selectedColor: color })\<close>.\<close>

definition chooseColor :: "color \<Rightarrow> GameState \<Rightarrow> GameState" where
  "chooseColor c prev = prev\<lparr>selectedColor := Some c\<rparr>"

text \<open>\<^verbatim>\<open>gameState.discard[gameState.discard.length - 1]\<close>: undefined on an empty pile.\<close>

definition topCardOf :: "GameState \<Rightarrow> card option" where
  "topCardOf s = (if discard s = [] then None else Some (last (discard s)))"

text \<open>
  \<^verbatim>\<open>gameState.selectedCards.map((i) => gameState.hands[0][i]).filter(Boolean)\<close>: an index
  beyond the hand gives \<^verbatim>\<open>undefined\<close>, which the filter drops.
\<close>

definition selectedCardObjects :: "GameState \<Rightarrow> card list" where
  "selectedCardObjects s =
     map (\<lambda>i. hands s ! 0 ! i) (filter (\<lambda>i. i < length (hands s ! 0)) (selectedCards s))"

text \<open>\<^verbatim>\<open>gameState.hands[0].filter((_, i) => !gameState.selectedCards.includes(i))\<close>\<close>

definition removeSelected :: "GameState \<Rightarrow> card list" where
  "removeSelected s =
     map snd (filter (\<lambda>(i, _). i \<notin> set (selectedCards s)) (enumerate 0 (hands s ! 0)))"

text \<open>
  The chain \<^verbatim>\<open>if (lastCard.value === 'Skip') ... else if ... 'Wild+4'\<close> stands twice in the
  source with the same text, in \<^verbatim>\<open>handlePlayerPlay\<close> for seat 0 and in the opponent effect
  for the current seat. It yields \<^verbatim>\<open>nextPlayerIdx\<close>, \<^verbatim>\<open>skipNext\<close>, \<^verbatim>\<open>newDirection\<close> and
  \<^verbatim>\<open>newHands\<close>. Of the result of \<^verbatim>\<open>drawCardsFromDeck\<close> only \<^verbatim>\<open>drawn\<close> is kept.
  \<open>played\<close> stands for \<^verbatim>\<open>selectedCardObjects\<close> in the one place and for \<^verbatim>\<open>cardsToPlay\<close>
  in the other, \<open>dk\<close> for the draw pile of the session.
\<close>

definition cardEffect ::
  "nat list list \<Rightarrow> nat \<Rightarrow> int \<Rightarrow> card list \<Rightarrow> card list \<Rightarrow> card list \<Rightarrow> card list list
     \<Rightarrow> nat \<times> bool \<times> int \<times> card list list"
where
  "cardEffect seeds seat dir dk played newDiscard newHands =
     (let lastCard = last played;
          nextPlayerIdx = getNextPlayerIdx seat dir
      in if cvalue lastCard = StrV ''Skip'' then (nextPlayerIdx, True, dir, newHands)
         else if cvalue lastCard = StrV ''Reverse'' then
           (let newDirection = (if dir = 1 then -1 else 1)
            in (getNextPlayerIdx seat newDirection, False, newDirection, newHands))
         else if cvalue lastCard = StrV ''Draw2'' then
           (let cardsToDrawCount =
                  length (filter (\<lambda>c. cvalue c = StrV ''Draw2'') played) * 2;
                drawn = fst (drawCardsFromDeck seeds cardsToDrawCount dk newDiscard)
            in (nextPlayerIdx, False, dir,
                newHands[nextPlayerIdx := newHands ! nextPlayerIdx @ drawn]))
         else if cvalue lastCard = StrV ''Wild+4'' then
           (let cardsToDrawCount =
                  length (filter (\<lambda>c. cvalue c = StrV ''Wild+4'') played) * 4;
                drawn = fst (drawCardsFromDeck seeds cardsToDrawCount dk newDiscard)
            in (nextPlayerIdx, False, dir,
                newHands[nextPlayerIdx := newHands ! nextPlayerIdx @ drawn]))
         else (nextPlayerIdx, False, dir, newHands))"

text \<open>
  \<^verbatim>\<open>handlePlayerPlay\<close>: the session after the handler has run on the session \<open>s\<close>
  (the handler reads \<^verbatim>\<open>gameState\<close> and issues one update).
\<close>

definition handlePlayerPlay :: "nat list list \<Rightarrow> GameState \<Rightarrow> GameState" where
  "handlePlayerPlay seeds s =
     (if currentPlayerIdx s \<noteq> 0 \<or> gameOver s then s
      else if selectedCards s = [] then s
      else
        let topCard = topCardOf s;
            sel = selectedCardObjects s
        in if sel = [] then s\<lparr>selectedCards := []\<rparr>
           else if length sel > 1 \<and> \<not> list_all (\<lambda>c. cvalue c = cvalue (hd sel)) sel
             then s\<lparr>selectedCards := []\<rparr>
           else if \<not> canCardBePlayed (Some (hd sel)) topCard (currentColor s)
             then s\<lparr>selectedCards := []\<rparr>
           else if ctype (hd sel) = Wild \<and> selectedColor s = None then s
           else
             let newHands = (hands s)[0 := removeSelected s];
                 newDiscard = discard s @ sel;
                 lastCard = last sel;
                 newColor = (if ctype lastCard = Wild then selectedColor s else color lastCard)
             in if newHands ! 0 = [] then
                  s\<lparr>gameOver := True, winner := Some 0, message := MsgYouWon,
                    hands := newHands, discard := newDiscard, currentColor := newColor\<rparr>
                else
                  let (nextPlayerIdx, skipNext, newDirection, newHands') =
                        cardEffect seeds 0 (direction s) (deck s) sel newDiscard newHands
                  in s\<lparr>hands := newHands', discard := newDiscard, currentColor := newColor,
                       currentPlayerIdx := nextPlayerIdx, direction := newDirection,
                       skipNextPlayer := skipNext, message := MsgAiTurn,
                       selectedColor := None, selectedCards := [], deck := deck s\<rparr>)"

definition handlePlayerDraw :: "nat list list \<Rightarrow> GameState \<Rightarrow> GameState" where
  "handlePlayerDraw seeds s =
     (if currentPlayerIdx s \<noteq> 0 \<or> gameOver s then s
      else
        let (drawn, newDeck) = drawCardsFromDeck seeds 1 (deck s) (discard s);
            newHands = (hands s)[0 := hands s ! 0 @ drawn];
            nextPlayerIdx = getNextPlayerIdx 0 (direction s)
        in s\<lparr>hands := newHands, deck := newDeck, currentPlayerIdx := nextPlayerIdx,
             message := MsgYouDrew, selectedCards := []\<rparr>)"

text \<open>
  The opponent's choice, the variables \<^verbatim>\<open>validCards\<close> and \<^verbatim>\<open>cardsToPlay\<close> of the
  effect: the cards of the current hand that may be played alone, and of these the
  first one together with all others of its value.
\<close>

definition validCards :: "GameState \<Rightarrow> card list" where
  "validCards s =
     filter (\<lambda>c. canCardBePlayed (Some c) (topCardOf s) (currentColor s))
       (hands s ! currentPlayerIdx s)"

definition cardsToPlay :: "GameState \<Rightarrow> card list" where
  "cardsToPlay s =
     (let firstCard = hd (validCards s);
          matchingCards = filter (\<lambda>c. cvalue c = cvalue firstCard) (validCards s)
      in if length matchingCards > 1 then matchingCards else [firstCard])"

text \<open>
  One activation of the opponent effect (the body of the timer callback), as the
  session it leaves behind: the updates it issues are applied in order to the session
  it read. \<open>rc\<close> is \<^verbatim>\<open>Math.floor(Math.random() * 4)\<close>, consulted for a wild card only.
  The winner test comes after the effect chain, and \<^verbatim>\<open>gameState.skipNextPlayer\<close> is not
  read.
\<close>

definition opponentTurn :: "nat list list \<Rightarrow> nat \<Rightarrow> GameState \<Rightarrow> GameState" where
  "opponentTurn seeds rc s =
     (if currentPlayerIdx s = 0 \<or> gameOver s then s
      else
        let cur = currentPlayerIdx s;
            currentHand = hands s ! cur
        in if validCards s = [] then
             (let (drawn, updatedDeck) = drawCardsFromDeck seeds 1 (deck s) (discard s);
                  newHands = (hands s)[cur := currentHand @ drawn]
              in s\<lparr>currentPlayerIdx := getNextPlayerIdx cur (direction s),
                   message := MsgYourTurn, hands := newHands, deck := updatedDeck\<rparr>)
           else
             let newHands = (hands s)[cur := filter (\<lambda>c. c \<notin> set (cardsToPlay s)) currentHand];
                 newDiscard = discard s @ cardsToPlay s;
                 lastCard = last (cardsToPlay s);
                 newColor = (if ctype lastCard = Wild then Some (COLORS ! (rc mod 4))
                             else color lastCard);
                 (nextPlayerIdx, skipNext, newDirection, newHands') =
                     cardEffect seeds cur (direction s) (deck s) (cardsToPlay s) newDiscard newHands
             in if newHands' ! cur = [] then
                  s\<lparr>gameOver := True, winner := Some cur, message := MsgAiWon cur,
                    hands := newHands', discard := newDiscard, currentColor := newColor\<rparr>
                else if skipNext then
                  (let nextPlayerIdx' = getNextPlayerIdx nextPlayerIdx newDirection
                   in s\<lparr>hands := newHands', discard := newDiscard, currentColor := newColor,
                        direction := newDirection, deck := deck s,
                        currentPlayerIdx := nextPlayerIdx',
                        message := MsgSkipped cur nextPlayerIdx', skipNextPlayer := False\<rparr>)
                else
                  s\<lparr>hands := newHands', discard := newDiscard, currentColor := newColor,
                    direction := newDirection, skipNextPlayer := skipNext, deck := deck s,
                    currentPlayerIdx := nextPlayerIdx, message := MsgYourTurn\<rparr>)"

section \<open>Notions used to state the properties\<close>

text \<open>
  A request to play is invalid when it is not seat 0's turn, the session is over, the
  selection is empty or names no card of the hand, the selected cards do not all have
  the value of the first, the first fails \<open>canCardBePlayed\<close>, or the first is of the
  wild kind and no colour has been chosen.
\<close>

definition playRejected :: "GameState \<Rightarrow> bool" where
  "playRejected s =
     (currentPlayerIdx s \<noteq> 0 \<or> gameOver s \<or> selectedCards s = [] \<or>
      (case selectedCardObjects s of
         [] \<Rightarrow> True
       | c # cs \<Rightarrow>
           \<not> list_all (\<lambda>x. cvalue x = cvalue c) cs \<or>
           \<not> canCardBePlayed (Some c) (topCardOf s) (currentColor s) \<or>
           (ctype c = Wild \<and> selectedColor s = None)))"

text \<open>
  The number of cards a stacked play makes the next seat draw: twice the number of
  Draw2 cards when the last card is a Draw2, four times the number of Wild+4 cards when
  it is a Wild+4.
\<close>

definition penaltyCount :: "card list \<Rightarrow> nat" where
  "penaltyCount cs =
     (if cvalue (last cs) = StrV ''Draw2''
      then 2 * length (filter (\<lambda>c. cvalue c = StrV ''Draw2'') cs)
      else if cvalue (last cs) = StrV ''Wild+4''
      then 4 * length (filter (\<lambda>c. cvalue c = StrV ''Wild+4'') cs)
      else 0)"

text \<open>All cards of a session: draw pile, discard pile and hands, with multiplicity.\<close>

definition allCards :: "GameState \<Rightarrow> card multiset" where
  "allCards s = mset (deck s) + mset (discard s) + mset (concat (hands s))"

section \<open>Example sessions\<close>

definition red5 :: card where "red5 = mkCard Number (Some Red) (NumV 5) ''r5''"
definition red9 :: card where "red9 = mkCard Number (Some Red) (NumV 9) ''r9''"
definition blue5 :: card where "blue5 = mkCard Number (Some Blue) (NumV 5) ''b5''"
definition blue7 :: card where "blue7 = mkCard Number (Some Blue) (NumV 7) ''b7''"
definition green1 :: card where "green1 = mkCard Number (Some Green) (NumV 1) ''g1''"
definition green2 :: card where "green2 = mkCard Number (Some Green) (NumV 2) ''g2''"
definition yellow3 :: card where "yellow3 = mkCard Number (Some Yellow) (NumV 3) ''y3''"
definition yellow4 :: card where "yellow4 = mkCard Number (Some Yellow) (NumV 4) ''y4''"
definition yellow6 :: card where "yellow6 = mkCard Number (Some Yellow) (NumV 6) ''y6''"
definition redDraw2 :: card where "redDraw2 = mkCard Action (Some Red) (StrV ''Draw2'') ''rd''"
definition redSkip :: card where "redSkip = mkCard Action (Some Red) (StrV ''Skip'') ''rs''"
definition wild4 :: card where "wild4 = mkCard Wild None (StrV ''Wild+4'') ''w4''"

text \<open>
  A red 5 lies open, red is active, the direction is clockwise and the draw pile holds
  three cards. The sessions differ in the hands, in whose turn it is and in what the
  human has selected.
\<close>

definition table :: "card list list \<Rightarrow> nat \<Rightarrow> nat list \<Rightarrow> GameState" where
  "table hs seat sel =
     \<lparr>deck = [yellow3, yellow4, yellow6], discard = [red5], hands = hs,
      currentColor = Some Red, currentPlayerIdx = seat, direction = 1, gameOver = False,
      winner = None, message = MsgYourTurn, selectedColor = None, selectedCards = sel,
      skipNextPlayer = False\<rparr>"

text \<open>The human holds a red Draw2 and a blue 7 and has selected the Draw2.\<close>

definition humanDraw2 :: GameState where
  "humanDraw2 = table [[redDraw2, blue7], [green1], [green2], [red9]] 0 [0]"

text \<open>The human holds a red Skip and a blue 7 and has selected the Skip.\<close>

definition humanSkip :: GameState where
  "humanSkip = table [[redSkip, blue7], [green1], [green2], [red9, blue5]] 0 [0]"

text \<open>
  The human holds a Wild+4 and a blue 7, has chosen yellow and has selected the Wild+4.
\<close>

definition humanWild4 :: GameState where
  "humanWild4 =
     (table [[wild4, blue7], [green1], [green2], [red9]] 0 [0])\<lparr>selectedColor := Some Yellow\<rparr>"

text \<open>Seat 1 is to move and holds a red Draw2 as its only card.\<close>

definition opponentLastDraw2 :: GameState where
  "opponentLastDraw2 = table [[blue7], [redDraw2], [green2], [red9]] 1 []"

text \<open>Seat 1 is to move and holds a red Draw2 and a green 1.\<close>

definition opponentDraw2 :: GameState where
  "opponentDraw2 = table [[blue7], [redDraw2, green1], [green2], [red9]] 1 []"

text \<open>The human has selected a blue 7 and a blue 5, which differ in rank.\<close>

definition humanMixed :: GameState where
  "humanMixed = table [[blue7, blue5], [green1], [green2], [red9]] 0 [0, 1]"

text \<open>A store that holds a draw pile at address 0 and a discard pile at address 1.\<close>

definition twoPiles :: "card list \<Rightarrow> card list \<Rightarrow> heap" where
  "twoPiles dk disc = \<lparr>arrays = (\<lambda>a. [])(0 := dk, 1 := disc), fresh = 2\<rparr>"

text \<open>
  A session without any card twice: the draw pile is empty, a red 9, a blue 5 and a red 5
  lie on the discard pile, and no opponent holds a card that fits. From it: the human
  draws (the pile is recycled and the red 9 comes off it), seats 3, 1 and 2 each have to
  draw (the pile is recycled a second time), and the human plays the red 9.
\<close>

definition recycleStart :: GameState where
  "recycleStart =
     (table [[blue7], [green2], [yellow3], [green1]] 0 [])\<lparr>deck := [], discard := [red9, blue5, red5]\<rparr>"

definition recycleTwice :: GameState where
  "recycleTwice =
     handlePlayerPlay [] (toggleCardSelection 1
       (opponentTurn [] 0 (opponentTurn [] 0 (opponentTurn [] 0
          (handlePlayerDraw [[1]] recycleStart)))))"

text \<open>
  The first move of a fresh game: the shuffle has left the deck in push order, the
  \<open>k\<close>-th card has the \<open>k\<close>-th character as its id, so the starter is a Wild+4 and
  the human holds the seven other wild cards. The human has selected the second card, a
  Wild+4, and chosen yellow.
\<close>

definition demoId :: "nat \<Rightarrow> string" where
  "demoId k = [char_of k]"

definition firstMove :: GameState where
  "firstMove = chooseColor Yellow (toggleCardSelection 1 (initialState demoId []))"

section \<open>The deck as the specification describes it\<close>

text \<open>
  The face of a card is what is printed on it: kind, colour and rank, without the id.
\<close>

definition face :: "card \<Rightarrow> card_type \<times> color option \<times> card_value" where
  "face c = (ctype c, color c, cvalue c)"

text \<open>
  How often each face occurs in a deck according to the specification: for each
  colour one 0, two each of 1 to 9, two each of Skip, Reverse and Draw2; four Wild and
  four Wild+4 without colour; nothing else.
\<close>

fun specCount :: "card_type \<times> color option \<times> card_value \<Rightarrow> nat" where
  "specCount (Number, Some c, NumV n) =
     (if n = 0 then 1 else if 1 \<le> n \<and> n \<le> 9 then 2 else 0)"
| "specCount (Action, Some c, StrV v) =
     (if v = ''Skip'' \<or> v = ''Reverse'' \<or> v = ''Draw2'' then 2 else 0)"
| "specCount (Wild, None, StrV v) =
     (if v = ''Wild'' \<or> v = ''Wild+4'' then 4 else 0)"
| "specCount _ = 0"

section \<open>Properties of the shuffle\<close>

lemma mset_shuffle: "mset (shuffle rs xs) = mset xs"
proof (induction rs arbitrary: xs)
  case Nil
  show ?case by simp
next
  case (Cons r rs)
  show ?case
  proof (cases "xs = []")
    case True
    then show ?thesis by simp
  next
    case False
    define i where "i = r mod length xs"
    have i: "i < length xs" using False by (simp add: i_def)
    have "mset xs = mset (take i xs @ xs ! i # drop (Suc i) xs)"
      using i by (simp add: id_take_nth_drop[symmetric])
    then show ?thesis
      using False Cons.IH[of "take i xs @ drop (Suc i) xs"]
      by (simp add: i_def[symmetric] Let_def)
  qed
qed

lemma set_shuffle: "set (shuffle rs xs) = set xs"
  using mset_shuffle[of rs xs] by (metis set_mset_mset)

lemma length_shuffle: "length (shuffle rs xs) = length xs"
  using mset_shuffle[of rs xs] by (metis size_mset)

lemma shuffle_Nil_iff: "shuffle rs xs = [] \<longleftrightarrow> xs = []"
  using length_shuffle[of rs xs] by (metis length_0_conv)

text \<open>
  Conversely every rearrangement is the outcome of some seed, so a statement about all
  seeds is a statement about all outcomes of the random sort.
\<close>

lemma shuffle_complete: "mset ys = mset xs \<Longrightarrow> \<exists>rs. shuffle rs xs = ys"
proof (induction ys arbitrary: xs)
  case Nil
  then have "xs = []" by simp
  then have "shuffle [] xs = []" by simp
  then show ?case by blast
next
  case (Cons y ys)
  have "y \<in> set xs" using Cons.prems by (metis list.set_intros(1) set_mset_mset)
  then obtain i where i: "i < length xs" "xs ! i = y" by (auto simp: in_set_conv_nth)
  have "mset xs = mset (take i xs @ y # drop (Suc i) xs)"
    using i by (metis id_take_nth_drop)
  then have "mset ys = mset (take i xs @ drop (Suc i) xs)"
    using Cons.prems by simp
  then obtain rs where rs: "shuffle rs (take i xs @ drop (Suc i) xs) = ys"
    using Cons.IH by blast
  have "xs \<noteq> []" using i by auto
  then have "shuffle (i # rs) xs = y # ys" using i rs by (simp add: Let_def)
  then show ?case by blast
qed

section \<open>Deck composition\<close>

lemma face_mkCard: "face (mkCard t c v i) = (t, c, v)"
  by (simp add: face_def mkCard_def)

lemma upto_0_9: "[0..9] = [0, 1, 2, 3, 4, 5, 6, 7, 8, 9::int]"
  by code_simp

lemma count_numberCards:
  "count (mset (map (\<lambda>f. face (f i)) numberCards)) (t, co, v) =
     (if t = Number then specCount (t, co, v) else 0)"
proof (cases v)
  case (NumV n)
  show ?thesis
  proof (cases co)
    case None
    then show ?thesis using NumV
      by (cases t) (simp_all add: numberCards_def COLORS_def face_mkCard upto_0_9)
  next
    case (Some c)
    then show ?thesis using NumV
      by (cases t; cases c) (auto simp add: numberCards_def COLORS_def face_mkCard upto_0_9)
  qed
next
  case (StrV s)
  then show ?thesis
    by (cases t; cases co) (simp_all add: numberCards_def COLORS_def face_mkCard upto_0_9)
qed

lemma count_actionCards:
  "count (mset (map (\<lambda>f. face (f i)) actionCards)) (t, co, v) =
     (if t = Action then specCount (t, co, v) else 0)"
proof (cases v)
  case (NumV n)
  then show ?thesis
    by (cases t; cases co)
       (simp_all add: actionCards_def ACTION_CARDS_def COLORS_def face_mkCard)
next
  case (StrV s)
  show ?thesis
  proof (cases co)
    case None
    then show ?thesis using StrV
      by (cases t) (simp_all add: actionCards_def ACTION_CARDS_def COLORS_def face_mkCard)
  next
    case (Some c)
    then show ?thesis using StrV
      by (cases t; cases c)
         (auto simp add: actionCards_def ACTION_CARDS_def COLORS_def face_mkCard)
  qed
qed

lemma count_wildCards:
  "count (mset (map (\<lambda>f. face (f i)) wildCards)) (t, co, v) =
     (if t = Wild then specCount (t, co, v) else 0)"
proof (cases v)
  case (NumV n)
  then show ?thesis
    by (cases t; cases co) (simp_all add: wildCards_def face_mkCard upt_rec)
next
  case (StrV s)
  then show ?thesis
    by (cases t; cases co) (auto simp add: wildCards_def face_mkCard upt_rec)
qed

lemma builder_is_mkCard:
  "f \<in> set (numberCards @ actionCards @ wildCards) \<Longrightarrow> \<exists>t c v. f = mkCard t c v"
  by (auto simp: numberCards_def actionCards_def wildCards_def split: if_splits)

lemma map_face_enumerate:
  "(\<And>f. f \<in> set fs \<Longrightarrow> \<exists>t c v. f = mkCard t c v) \<Longrightarrow>
     map (\<lambda>(k, f). face (f (rid k))) (enumerate n fs) = map (\<lambda>f. face (f [])) fs"
proof (induction fs arbitrary: n)
  case Nil
  show ?case by simp
next
  case (Cons f fs)
  obtain t c v where f: "f = mkCard t c v" using Cons.prems[of f] by auto
  have "map (\<lambda>(k, f). face (f (rid k))) (enumerate (Suc n) fs) = map (\<lambda>f. face (f [])) fs"
    using Cons.IH[of "Suc n"] Cons.prems by simp
  then show ?case by (simp add: f face_mkCard)
qed

lemma faces_unshuffledDeck:
  "map face (unshuffledDeck rid) =
     map (\<lambda>f. face (f [])) (numberCards @ actionCards @ wildCards)"
proof -
  have "map face (unshuffledDeck rid) =
          map (\<lambda>(k, f). face (f (rid k))) (enumerate 0 (numberCards @ actionCards @ wildCards))"
    by (simp add: unshuffledDeck_def case_prod_unfold)
  then show ?thesis
    using map_face_enumerate[of "numberCards @ actionCards @ wildCards" rid 0] builder_is_mkCard
    by simp
qed

lemma count_unshuffledDeck:
  "count (mset (map face (unshuffledDeck rid))) x = specCount x"
proof -
  obtain t co v where x: "x = (t, co, v)" by (cases x)
  have "count (mset (map face (unshuffledDeck rid))) (t, co, v) =
          (if t = Number then specCount (t, co, v) else 0)
          + (if t = Action then specCount (t, co, v) else 0)
          + (if t = Wild then specCount (t, co, v) else 0)"
    by (simp only: faces_unshuffledDeck map_append mset_append count_union
          count_numberCards count_actionCards count_wildCards)
  then show ?thesis unfolding x by (cases t) simp_all
qed

lemma length_unshuffledDeck: "length (unshuffledDeck rid) = 108"
  by (simp add: unshuffledDeck_def numberCards_def actionCards_def wildCards_def
        COLORS_def ACTION_CARDS_def upto_0_9 upt_rec)

lemma length_generateDeck: "length (generateDeck rid seed) = 108"
  by (simp add: generateDeck_def length_shuffle length_unshuffledDeck)

lemma count_generateDeck:
  "count (mset (map face (generateDeck rid seed))) x = specCount x"
proof -
  have "mset (map face (generateDeck rid seed)) = mset (map face (unshuffledDeck rid))"
    by (simp add: generateDeck_def mset_shuffle)
  then show ?thesis by (simp only: count_unshuffledDeck)
qed

text \<open>
  C5. Whatever ids \<^verbatim>\<open>randId\<close> hands out and whatever the shuffle does, the deck has
  108 cards, and every face occurs in it exactly as often as the specification says:
  per colour one 0, two each of 1 to 9 and of Skip, Reverse and Draw2, and four Wild and
  four Wild+4 without colour.
\<close>

theorem generateDeck_composition:
  "length (generateDeck rid seed) = 108 \<and>
   (\<forall>x. count (mset (map face (generateDeck rid seed))) x = specCount x)"
  by (simp only: length_generateDeck count_generateDeck simp_thms)

theorem generateDeck_composition_witness:
  "length (generateDeck (\<lambda>k. replicate k CHR ''a'') [5, 3, 107]) = 108 \<and>
   count (mset (map face (generateDeck (\<lambda>k. replicate k CHR ''a'') [5, 3, 107])))
     (Number, Some Blue, NumV 7) = 2 \<and>
   count (mset (map face (generateDeck (\<lambda>k. replicate k CHR ''a'') [5, 3, 107])))
     (Wild, None, StrV ''Wild+4'') = 4 \<and>
   count (mset (map face (generateDeck (\<lambda>k. replicate k CHR ''a'') [5, 3, 107])))
     (Number, Some Red, NumV 0) = 1"
  using generateDeck_composition[of "\<lambda>k. replicate k CHR ''a''" "[5, 3, 107]"]
  by simp

section \<open>Fresh sessions\<close>

lemma generateDeck_nonempty: "generateDeck rid seed \<noteq> []"
  using length_generateDeck[of rid seed] by auto

lemma specCount_wild_iff: "specCount (t, co, v) > 0 \<Longrightarrow> (t = Wild \<longleftrightarrow> co = None)"
  by (cases "(t, co, v)" rule: specCount.cases) simp_all

lemma generateDeck_wild_iff:
  assumes "c \<in> set (generateDeck rid seed)"
  shows "ctype c = Wild \<longleftrightarrow> color c = None"
proof -
  have "face c \<in># mset (map face (generateDeck rid seed))" using assms by simp
  then have "count (mset (map face (generateDeck rid seed))) (face c) > 0"
    by (simp only: count_greater_zero_iff)
  then have "specCount (ctype c, color c, cvalue c) > 0"
    by (simp only: count_generateDeck face_def)
  then show ?thesis by (rule specCount_wild_iff)
qed

lemma face_last_unshuffledDeck:
  "face (last (unshuffledDeck rid)) = (Wild, None, StrV ''Wild+4'')"
proof -
  have "unshuffledDeck rid \<noteq> []" using length_unshuffledDeck[of rid] by auto
  then have "face (last (unshuffledDeck rid)) = last (map face (unshuffledDeck rid))"
    by (simp add: last_map)
  also have "\<dots> = (Wild, None, StrV ''Wild+4'')"
    by (simp only: faces_unshuffledDeck) (simp add: wildCards_def upt_rec face_mkCard)
  finally show ?thesis .
qed

text \<open>
  C10. In every fresh session, from \<^verbatim>\<open>initialState\<close> or from \<^verbatim>\<open>resetGame\<close>, the
  discard pile is the starter card alone (the last card of the fresh deck), the active
  colour is the starter's colour, or red when the starter is of the wild kind (which for
  a card of the deck is the same as having no colour), and no colour choice is pending.
\<close>

theorem initialState_currentColor:
  "generateDeck rid seed \<noteq> [] \<and>
   discard (initialState rid seed) = [last (generateDeck rid seed)] \<and>
   (ctype (last (generateDeck rid seed)) = Wild \<longleftrightarrow>
      color (last (generateDeck rid seed)) = None) \<and>
   currentColor (initialState rid seed) =
     (if ctype (last (generateDeck rid seed)) = Wild then Some Red
      else color (last (generateDeck rid seed))) \<and>
   selectedColor (initialState rid seed) = None \<and>
   resetGame rid seed prev = initialState rid seed"
proof -
  let ?st = "last (generateDeck rid seed)"
  have ne: "generateDeck rid seed \<noteq> []" by (rule generateDeck_nonempty)
  then have "?st \<in> set (generateDeck rid seed)" by simp
  then have w: "ctype ?st = Wild \<longleftrightarrow> color ?st = None" by (rule generateDeck_wild_iff)
  have cc: "currentColor (initialState rid seed) =
              (case color ?st of None \<Rightarrow> Some Red | Some c \<Rightarrow> Some c)"
    by (simp add: initialState_def Let_def case_prod_unfold)
  have "currentColor (initialState rid seed) = (if ctype ?st = Wild then Some Red else color ?st)"
    unfolding cc using w by (cases "color ?st") simp_all
  moreover have "discard (initialState rid seed) = [?st]"
    and "selectedColor (initialState rid seed) = None"
    by (simp_all add: initialState_def Let_def case_prod_unfold)
  moreover have "resetGame rid seed prev = initialState rid seed"
    by (simp add: initialState_def resetGame_def)
  ultimately show ?thesis using ne w by simp
qed

text \<open>With the deck left in push order the starter is a Wild+4, and red is active.\<close>

theorem initialState_currentColor_witness:
  "ctype (last (generateDeck (\<lambda>k. ''x'') [])) = Wild \<and>
   currentColor (initialState (\<lambda>k. ''x'') []) = Some Red"
  using initialState_currentColor[of "\<lambda>k. ''x''" "[]"]
    face_last_unshuffledDeck[of "\<lambda>k. ''x''"]
  by (simp add: generateDeck_def face_def)

section \<open>Legality\<close>

text \<open>
  C7. A card is playable on a top card under an active colour exactly when it is of
  the wild kind, or its colour is the active colour, or its rank is the rank of the top
  card. The rank test does not look at the active colour.
\<close>

theorem canCardBePlayed_iff:
  "canCardBePlayed (Some c) (Some t) activeColor \<longleftrightarrow>
     (ctype c = Wild \<or> color c = activeColor \<or> cvalue c = cvalue t)"
  by (simp add: canCardBePlayed_def)

text \<open>A blue 5 on a red 5 while the active colour is green.\<close>

theorem canCardBePlayed_iff_witness:
  "canCardBePlayed (Some (mkCard Number (Some Blue) (NumV 5) ''b5''))
     (Some (mkCard Number (Some Red) (NumV 5) ''r5'')) (Some Green)"
  using canCardBePlayed_iff[of "mkCard Number (Some Blue) (NumV 5) ''b5''"
      "mkCard Number (Some Red) (NumV 5) ''r5''" "Some Green"]
  by (simp add: mkCard_def)

section \<open>Seat order\<close>

lemma getNextPlayerIdx_clockwise:
  "getNextPlayerIdx 0 1 = 3" "getNextPlayerIdx 3 1 = 1"
  "getNextPlayerIdx 1 1 = 2" "getNextPlayerIdx 2 1 = 0"
  "getNextPlayerIdx (Suc 0) 1 = 2"
  by (simp_all add: getNextPlayerIdx_def clockwiseOrder_def)

lemma getNextPlayerIdx_counter:
  "getNextPlayerIdx 0 (- 1) = 2" "getNextPlayerIdx 2 (- 1) = 1"
  "getNextPlayerIdx 1 (- 1) = 3" "getNextPlayerIdx 3 (- 1) = 0"
  "getNextPlayerIdx (Suc 0) (- 1) = 3"
  by (simp_all add: getNextPlayerIdx_def clockwiseOrder_def)

text \<open>
  C9. For every seat \<open>s\<close> of 0, 1, 2, 3 and every direction \<open>d\<close> of +1, -1, stepping
  from \<open>s\<close> in direction \<open>d\<close> and then in direction \<open>-d\<close> leads back to \<open>s\<close>; a step
  in direction +1 follows the ring 0, 3, 1, 2, 0 and a step in direction -1 follows it
  backwards.
\<close>

theorem getNextPlayerIdx_involution:
  assumes "s \<in> {0, 1, 2, 3}" and "d \<in> {1, - 1}"
  shows "getNextPlayerIdx (getNextPlayerIdx s d) (- d) = s \<and>
         map (\<lambda>x. getNextPlayerIdx x 1) [0, 3, 1, 2] = [3, 1, 2, 0] \<and>
         map (\<lambda>x. getNextPlayerIdx x (- 1)) [3, 1, 2, 0] = [0, 3, 1, 2]"
  using assms by (auto simp: getNextPlayerIdx_clockwise getNextPlayerIdx_counter)

theorem getNextPlayerIdx_involution_witness:
  "(3::nat) \<in> {0, 1, 2, 3} \<and> (- 1::int) \<in> {1, - 1} \<and>
   getNextPlayerIdx (getNextPlayerIdx 3 (- 1)) (- (- 1)) = 3"
  using getNextPlayerIdx_involution[of 3 "- 1"] by simp

section \<open>Drawing and recycling\<close>

lemma butlast_nonempty: "length xs > 1 \<Longrightarrow> butlast xs \<noteq> []"
  by (cases xs rule: rev_cases) auto

lemma drawLoop_set:
  "set (fst (drawLoop n seeds disc dk dr)) \<subseteq> set dr \<union> set dk \<union> set (butlast disc)"
proof (induction n seeds disc dk dr rule: drawLoop.induct)
  case (1 seeds disc dk dr)
  show ?case by auto
next
  case (2 n seeds disc dk dr)
  show ?case
  proof (cases "dk = []")
    case False
    then have "set (butlast dk) \<subseteq> set dk" "last dk \<in> set dk"
      by (auto dest: in_set_butlastD)
    then show ?thesis using False "2.IH"(3) by auto
  next
    case True
    show ?thesis
    proof (cases "length disc > 1")
      case False
      then show ?thesis using True by simp
    next
      case gt: True
      define d where "d = shuffle (case seeds of [] \<Rightarrow> [] | r # _ \<Rightarrow> r) (butlast disc)"
      define rest where "rest = (case seeds of [] \<Rightarrow> [] | _ # rs \<Rightarrow> rs)"
      have sd: "set d = set (butlast disc)" by (simp add: d_def set_shuffle)
      have dn: "d \<noteq> []" using gt by (simp add: d_def shuffle_Nil_iff butlast_nonempty)
      have "set (fst (drawLoop n rest disc (butlast d) (dr @ [last d])))
             \<subseteq> set (dr @ [last d]) \<union> set (butlast d) \<union> set (butlast disc)"
        using "2.IH"(1)[OF True gt d_def rest_def dn] by simp
      moreover have "set (butlast d) \<subseteq> set d" "last d \<in> set d"
        using dn by (auto dest: in_set_butlastD)
      ultimately have "set (fst (drawLoop n rest disc (butlast d) (dr @ [last d])))
             \<subseteq> set dr \<union> set dk \<union> set (butlast disc)"
        using sd by auto
      then show ?thesis using True gt dn
        by (simp add: d_def[symmetric] rest_def[symmetric] Let_def)
    qed
  qed
qed

lemma drawLoop_length:
  "length disc > 1 \<Longrightarrow> length (fst (drawLoop n seeds disc dk dr)) = length dr + n"
proof (induction n arbitrary: seeds dk dr)
  case 0
  show ?case by simp
next
  case (Suc n)
  have ne: "shuffle r (butlast disc) \<noteq> []" for r
    using Suc.prems by (simp add: shuffle_Nil_iff butlast_nonempty)
  show ?case using Suc.prems ne by (simp add: Suc.IH Let_def)
qed

lemma drawLoop_no_recycle:
  "length disc \<le> 1 \<or> n \<le> length dk \<Longrightarrow>
     drawLoop n seeds disc dk dr = (dr @ take n (rev dk), take (length dk - n) dk)"
proof (induction n arbitrary: dk dr)
  case 0
  show ?case by simp
next
  case (Suc n)
  show ?case
  proof (cases "dk = []")
    case True
    then show ?thesis using Suc.prems by simp
  next
    case False
    then obtain ys y where dk: "dk = ys @ [y]" by (metis rev_exhaust)
    have "drawLoop n seeds disc ys (dr @ [y]) = ((dr @ [y]) @ take n (rev ys), take (length ys - n) ys)"
      using Suc.prems dk by (intro Suc.IH) auto
    then show ?thesis using dk by simp
  qed
qed

lemma drawLoop_recycle:
  "length disc > 1 \<Longrightarrow> 
   drawLoop (Suc n) seeds disc [] dr = 
   drawLoop (Suc n) (case seeds of [] \<Rightarrow> [] | _ # rs \<Rightarrow> rs) disc (shuffle (case seeds of [] \<Rightarrow> [] | r # _ \<Rightarrow> r) (butlast disc)) dr"
proof -
  assume gt: "length disc > 1"
  define d where "d = shuffle (case seeds of [] \<Rightarrow> [] | r # _ \<Rightarrow> r) (butlast disc)"
  have "d \<noteq> []" using gt by (simp add: d_def shuffle_Nil_iff butlast_nonempty)
  then show ?thesis using gt by (simp add: d_def[symmetric] Let_def)
qed

lemma drawLoop_acc:
  "drawLoop n seeds disc dk dr =
     (dr @ fst (drawLoop n seeds disc dk []), snd (drawLoop n seeds disc dk []))"
proof (induction n arbitrary: seeds dk dr)
  case 0
  show ?case by simp
next
  case (Suc n)
  note IH = Suc.IH
  show ?case
  proof (cases "dk = []")
    case False
    have "drawLoop n seeds disc (butlast dk) (dr @ [last dk]) =
            ((dr @ [last dk]) @ fst (drawLoop n seeds disc (butlast dk) []),
             snd (drawLoop n seeds disc (butlast dk) []))"
      by (rule IH)
    moreover have "drawLoop n seeds disc (butlast dk) [last dk] =
            ([last dk] @ fst (drawLoop n seeds disc (butlast dk) []),
             snd (drawLoop n seeds disc (butlast dk) []))"
      by (rule IH)
    ultimately show ?thesis using False by simp
  next
    case True
    show ?thesis
    proof (cases "1 < length disc")
      case False
      then show ?thesis using True by simp
    next
      case gt: True
      define d where "d = shuffle (case seeds of [] \<Rightarrow> [] | r # _ \<Rightarrow> r) (butlast disc)"
      define rest where "rest = (case seeds of [] \<Rightarrow> [] | _ # rs \<Rightarrow> rs)"
      have dn: "d \<noteq> []" using gt by (simp add: d_def shuffle_Nil_iff butlast_nonempty)
      have "drawLoop n rest disc (butlast d) (dr @ [last d]) =
              ((dr @ [last d]) @ fst (drawLoop n rest disc (butlast d) []),
               snd (drawLoop n rest disc (butlast d) []))"
        by (rule IH)
      moreover have "drawLoop n rest disc (butlast d) [last d] =
              ([last d] @ fst (drawLoop n rest disc (butlast d) []),
               snd (drawLoop n rest disc (butlast d) []))"
        by (rule IH)
      ultimately show ?thesis using True gt dn
        by (simp add: d_def[symmetric] rest_def[symmetric] Let_def)
    qed
  qed
qed

lemma drawLoop_exhaust:
  "drawLoop (length dk + m) seeds disc dk dr = drawLoop m seeds disc [] (dr @ rev dk)"
proof (induction dk arbitrary: dr rule: rev_induct)
  case Nil
  show ?case by simp
next
  case (snoc y ys)
  have "drawLoop (length ys + m) seeds disc ys (dr @ [y]) =
          drawLoop m seeds disc [] ((dr @ [y]) @ rev ys)"
    by (rule snoc.IH)
  then show ?case by simp
qed

lemma drawCards_exhaust:
  "drawCardsFromDeck seeds (length dk + m) dk disc =
     (rev dk @ fst (drawCardsFromDeck seeds m [] disc), snd (drawCardsFromDeck seeds m [] disc))"
proof -
  have "drawCardsFromDeck seeds (length dk + m) dk disc = drawLoop m seeds disc [] (rev dk)"
    using drawLoop_exhaust[of dk m seeds disc "[]"] by (simp add: drawCardsFromDeck_def)
  also have "\<dots> = (rev dk @ fst (drawLoop m seeds disc [] []), snd (drawLoop m seeds disc [] []))"
    by (rule drawLoop_acc)
  finally show ?thesis by (simp add: drawCardsFromDeck_def)
qed

text \<open>
  On arrays in a store the routine returns what \<open>drawCardsFromDeck\<close> returns, and the
  arrays it was given, the draw pile and the discard pile, hold afterwards what they held
  before.
\<close>

lemma drawLoopH_sim:
  assumes "cd < fresh h" "cd \<noteq> nd" "cd \<noteq> dr" "nd < fresh h" "dr < fresh h" "nd \<noteq> dr"
  shows "(arrays (snd (drawLoopH n seeds cd nd dr h)) dr,
          arrays (snd (drawLoopH n seeds cd nd dr h)) (fst (drawLoopH n seeds cd nd dr h))) =
           drawLoop n seeds (arrays h cd) (arrays h nd) (arrays h dr) \<and>
         (\<forall>a < fresh h. a \<noteq> nd \<longrightarrow> a \<noteq> dr \<longrightarrow>
            arrays (snd (drawLoopH n seeds cd nd dr h)) a = arrays h a)"
  using assms
proof (induction n arbitrary: seeds nd h)
  case 0
  show ?case by simp
next
  case (Suc n)
  show ?case
  proof (cases "arrays h nd = []")
    case False
    let ?h = "popPush nd dr h"
    have a: "arrays ?h cd = arrays h cd" "arrays ?h nd = butlast (arrays h nd)"
      "arrays ?h dr = arrays h dr @ [last (arrays h nd)]" "fresh ?h = fresh h"
      using Suc.prems by (simp_all add: popPush_def Let_def)
    have o: "\<forall>a. a \<noteq> nd \<longrightarrow> a \<noteq> dr \<longrightarrow> arrays ?h a = arrays h a"
      by (simp add: popPush_def Let_def)
    have IH: "(arrays (snd (drawLoopH n seeds cd nd dr ?h)) dr,
          arrays (snd (drawLoopH n seeds cd nd dr ?h)) (fst (drawLoopH n seeds cd nd dr ?h))) =
           drawLoop n seeds (arrays ?h cd) (arrays ?h nd) (arrays ?h dr) \<and>
         (\<forall>a < fresh ?h. a \<noteq> nd \<longrightarrow> a \<noteq> dr \<longrightarrow>
            arrays (snd (drawLoopH n seeds cd nd dr ?h)) a = arrays ?h a)"
      using Suc.prems a(4) by (intro Suc.IH) simp_all
    then show ?thesis using False a o by simp
  next
    case True
    show ?thesis
    proof (cases "1 < length (arrays h cd)")
      case False
      then show ?thesis using True by simp
    next
      case gt: True
      define sd where "sd = (case seeds of [] \<Rightarrow> [] | r # _ \<Rightarrow> r)"
      define rest where "rest = (case seeds of [] \<Rightarrow> [] | _ # rs \<Rightarrow> rs)"
      define a where "a = fresh h"
      define d where "d = shuffle sd (butlast (arrays h cd))"
      define h2 where "h2 = h\<lparr>arrays := (arrays h)(a := d), fresh := Suc (fresh h)\<rparr>"
      have dn: "d \<noteq> []" using gt by (simp add: d_def shuffle_Nil_iff butlast_nonempty)
      let ?h = "popPush a dr h2"
      have ne: "a \<noteq> cd" "a \<noteq> dr" "a \<noteq> nd" using Suc.prems by (simp_all add: a_def)
      have f: "arrays ?h cd = arrays h cd" "arrays ?h a = butlast d"
        "arrays ?h dr = arrays h dr @ [last d]" "fresh ?h = Suc (fresh h)"
        using ne Suc.prems(3) by (simp_all add: popPush_def Let_def h2_def)
      have o: "\<forall>b. b \<noteq> a \<longrightarrow> b \<noteq> dr \<longrightarrow> arrays ?h b = arrays h b"
        by (simp add: popPush_def Let_def h2_def)
      have h2eq: "h\<lparr>fresh := Suc a, arrays := (arrays h)(a := d)\<rparr> = h2"
        by (simp add: h2_def a_def)
      have step: "drawLoopH (Suc n) seeds cd nd dr h = drawLoopH n rest cd a dr ?h"
        using True gt dn
        by (simp add: alloc_def Let_def sd_def[symmetric] rest_def[symmetric] a_def[symmetric]
              d_def[symmetric] h2eq)
      have step': "drawLoop (Suc n) seeds (arrays h cd) (arrays h nd) (arrays h dr) =
                   drawLoop n rest (arrays h cd) (butlast d) (arrays h dr @ [last d])"
        using True gt dn
        by (simp add: Let_def sd_def[symmetric] rest_def[symmetric] d_def[symmetric])
      have IH: "(arrays (snd (drawLoopH n rest cd a dr ?h)) dr,
          arrays (snd (drawLoopH n rest cd a dr ?h)) (fst (drawLoopH n rest cd a dr ?h))) =
           drawLoop n rest (arrays ?h cd) (arrays ?h a) (arrays ?h dr) \<and>
         (\<forall>b < fresh ?h. b \<noteq> a \<longrightarrow> b \<noteq> dr \<longrightarrow>
            arrays (snd (drawLoopH n rest cd a dr ?h)) b = arrays ?h b)"
        using Suc.prems ne f(4) by (intro Suc.IH) (simp_all add: a_def)
      have keep: "arrays (snd (drawLoopH n rest cd a dr ?h)) b = arrays h b"
        if "b < fresh h" "b \<noteq> nd" "b \<noteq> dr" for b
      proof -
        have "b \<noteq> a" using that by (simp add: a_def)
        then show ?thesis using IH that f(4) o by simp
      qed
      show ?thesis
        unfolding step step' using IH f keep by simp
    qed
  qed
qed

lemma drawCardsFromDeckH_sim:
  assumes "deckAddr < fresh h" and "discAddr < fresh h"
  shows "arrays (snd (drawCardsFromDeckH seeds cnt deckAddr discAddr h)) discAddr = arrays h discAddr"
    and "arrays (snd (drawCardsFromDeckH seeds cnt deckAddr discAddr h)) deckAddr = arrays h deckAddr"
    and "(arrays (snd (drawCardsFromDeckH seeds cnt deckAddr discAddr h))
            (fst (fst (drawCardsFromDeckH seeds cnt deckAddr discAddr h))),
          arrays (snd (drawCardsFromDeckH seeds cnt deckAddr discAddr h))
            (snd (fst (drawCardsFromDeckH seeds cnt deckAddr discAddr h)))) =
         drawCardsFromDeck seeds cnt (arrays h deckAddr) (arrays h discAddr)"
proof -
  define nd where "nd = fresh h"
  define dr where "dr = Suc (fresh h)"
  define h2 where "h2 = h\<lparr>arrays := (arrays h)(nd := arrays h deckAddr, dr := []),
                          fresh := Suc (Suc (fresh h))\<rparr>"
  have ne: "discAddr \<noteq> nd" "discAddr \<noteq> dr" "deckAddr \<noteq> nd" "deckAddr \<noteq> dr" "nd \<noteq> dr"
    using assms by (simp_all add: nd_def dr_def)
  have fr: "discAddr < fresh h2" "deckAddr < fresh h2" "nd < fresh h2" "dr < fresh h2"
    using assms by (simp_all add: h2_def nd_def dr_def)
  have ar: "arrays h2 discAddr = arrays h discAddr" "arrays h2 deckAddr = arrays h deckAddr"
    "arrays h2 nd = arrays h deckAddr" "arrays h2 dr = []"
    using ne by (simp_all add: h2_def)
  have eq: "drawCardsFromDeckH seeds cnt deckAddr discAddr h =
        ((dr, fst (drawLoopH cnt seeds discAddr nd dr h2)), snd (drawLoopH cnt seeds discAddr nd dr h2))"
    by (simp add: drawCardsFromDeckH_def alloc_def Let_def case_prod_unfold h2_def nd_def dr_def)
  note sim = drawLoopH_sim[OF fr(1) ne(1) ne(2) fr(3) fr(4) ne(5), of cnt seeds]
  show "arrays (snd (drawCardsFromDeckH seeds cnt deckAddr discAddr h)) discAddr = arrays h discAddr"
    using sim fr(1) ne(1,2) ar(1) by (simp add: eq)
  show "arrays (snd (drawCardsFromDeckH seeds cnt deckAddr discAddr h)) deckAddr = arrays h deckAddr"
    using sim fr(2) ne(3,4) ar(2) by (simp add: eq)
  show "(arrays (snd (drawCardsFromDeckH seeds cnt deckAddr discAddr h))
            (fst (fst (drawCardsFromDeckH seeds cnt deckAddr discAddr h))),
          arrays (snd (drawCardsFromDeckH seeds cnt deckAddr discAddr h))
            (snd (fst (drawCardsFromDeckH seeds cnt deckAddr discAddr h)))) =
         drawCardsFromDeck seeds cnt (arrays h deckAddr) (arrays h discAddr)"
    using sim ar by (simp add: eq drawCardsFromDeck_def)
qed

text \<open>
  C6, as the code has it. Drawing more cards than the draw pile holds takes the whole
  pile, top first, and goes on as from an empty pile. When the draw pile is empty and the
  discard pile has more than one card, drawing goes on from a new draw pile that is a
  rearrangement of the discard pile without its top card, and then the routine always
  delivers the number of cards asked for. Every card drawn comes from the draw pile or
  from the discard pile below its top; so the top card of the discard pile is not drawn
  provided it lies nowhere else in the two piles. When the discard pile has at most one
  card, the cards are taken off the draw pile from its top as long as there are any; when
  it runs out the routine stops and returns the fewer cards it has. The routine does not
  write to the discard pile: the array holds after the call what it held before.
\<close>

theorem drawCardsFromDeck_recycle:
  "drawCardsFromDeck seeds (length dk + m) dk disc =
     (rev dk @ fst (drawCardsFromDeck seeds m [] disc),
      snd (drawCardsFromDeck seeds m [] disc)) \<and>
   (1 < length disc \<longrightarrow>
      drawCardsFromDeck (r # rest) (Suc n) [] disc =
        drawCardsFromDeck rest (Suc n) (shuffle r (butlast disc)) disc \<and>
      drawCardsFromDeck [] (Suc n) [] disc = drawCardsFromDeck [] (Suc n) (butlast disc) disc \<and>
      mset (shuffle r (butlast disc)) = mset (butlast disc) \<and>
      length (fst (drawCardsFromDeck seeds cnt dk disc)) = cnt) \<and>
   set (fst (drawCardsFromDeck seeds cnt dk disc)) \<subseteq> set dk \<union> set (butlast disc) \<and>
   (disc \<noteq> [] \<and> last disc \<notin> set dk \<union> set (butlast disc) \<longrightarrow>
      last disc \<notin> set (fst (drawCardsFromDeck seeds cnt dk disc))) \<and>
   (length disc \<le> 1 \<longrightarrow>
      drawCardsFromDeck seeds cnt dk disc = (take cnt (rev dk), take (length dk - cnt) dk)) \<and>
   (length disc \<le> 1 \<and> length dk < cnt \<longrightarrow>
      drawCardsFromDeck seeds cnt dk disc = (rev dk, []) \<and>
      length (fst (drawCardsFromDeck seeds cnt dk disc)) < cnt) \<and>
   (deckAddr < fresh h \<and> discAddr < fresh h \<longrightarrow>
      arrays (snd (drawCardsFromDeckH seeds cnt deckAddr discAddr h)) discAddr =
        arrays h discAddr \<and>
      (arrays (snd (drawCardsFromDeckH seeds cnt deckAddr discAddr h))
         (fst (fst (drawCardsFromDeckH seeds cnt deckAddr discAddr h))),
       arrays (snd (drawCardsFromDeckH seeds cnt deckAddr discAddr h))
         (snd (fst (drawCardsFromDeckH seeds cnt deckAddr discAddr h)))) =
        drawCardsFromDeck seeds cnt (arrays h deckAddr) (arrays h discAddr))"
proof -
  have sub: "set (fst (drawCardsFromDeck seeds cnt dk disc)) \<subseteq> set dk \<union> set (butlast disc)"
    using drawLoop_set[of cnt seeds disc dk "[]"] by (simp add: drawCardsFromDeck_def)
  have stop: "drawCardsFromDeck seeds cnt dk disc = (take cnt (rev dk), take (length dk - cnt) dk)"
    if "length disc \<le> 1"
    using drawLoop_no_recycle[of disc cnt dk seeds "[]"] that by (simp add: drawCardsFromDeck_def)
  have rec: "drawCardsFromDeck (r # rest) (Suc n) [] disc =
        drawCardsFromDeck rest (Suc n) (shuffle r (butlast disc)) disc"
    and rec0: "drawCardsFromDeck [] (Suc n) [] disc =
        drawCardsFromDeck [] (Suc n) (butlast disc) disc"
    and len: "length (fst (drawCardsFromDeck seeds cnt dk disc)) = cnt"
    if "1 < length disc"
    using drawLoop_recycle[OF that, of n "r # rest" "[]"] drawLoop_recycle[OF that, of n "[]" "[]"]
      drawLoop_length[OF that, of cnt seeds dk "[]"]
    by (simp_all add: drawCardsFromDeck_def)
  have piles: "(1 < length disc \<longrightarrow>
      drawCardsFromDeck (r # rest) (Suc n) [] disc =
        drawCardsFromDeck rest (Suc n) (shuffle r (butlast disc)) disc \<and>
      drawCardsFromDeck [] (Suc n) [] disc = drawCardsFromDeck [] (Suc n) (butlast disc) disc \<and>
      mset (shuffle r (butlast disc)) = mset (butlast disc) \<and>
      length (fst (drawCardsFromDeck seeds cnt dk disc)) = cnt) \<and>
   set (fst (drawCardsFromDeck seeds cnt dk disc)) \<subseteq> set dk \<union> set (butlast disc) \<and>
   (disc \<noteq> [] \<and> last disc \<notin> set dk \<union> set (butlast disc) \<longrightarrow>
      last disc \<notin> set (fst (drawCardsFromDeck seeds cnt dk disc))) \<and>
   (length disc \<le> 1 \<longrightarrow>
      drawCardsFromDeck seeds cnt dk disc = (take cnt (rev dk), take (length dk - cnt) dk)) \<and>
   (length disc \<le> 1 \<and> length dk < cnt \<longrightarrow>
      drawCardsFromDeck seeds cnt dk disc = (rev dk, []) \<and>
      length (fst (drawCardsFromDeck seeds cnt dk disc)) < cnt)"
    using sub stop rec rec0 len by (auto simp: mset_shuffle)
  have store: "deckAddr < fresh h \<and> discAddr < fresh h \<longrightarrow>
      arrays (snd (drawCardsFromDeckH seeds cnt deckAddr discAddr h)) discAddr =
        arrays h discAddr \<and>
      (arrays (snd (drawCardsFromDeckH seeds cnt deckAddr discAddr h))
         (fst (fst (drawCardsFromDeckH seeds cnt deckAddr discAddr h))),
       arrays (snd (drawCardsFromDeckH seeds cnt deckAddr discAddr h))
         (snd (fst (drawCardsFromDeckH seeds cnt deckAddr discAddr h)))) =
        drawCardsFromDeck seeds cnt (arrays h deckAddr) (arrays h discAddr)"
  proof (intro impI, elim conjE)
    assume a: "deckAddr < fresh h" "discAddr < fresh h"
    show "arrays (snd (drawCardsFromDeckH seeds cnt deckAddr discAddr h)) discAddr =
        arrays h discAddr \<and>
      (arrays (snd (drawCardsFromDeckH seeds cnt deckAddr discAddr h))
         (fst (fst (drawCardsFromDeckH seeds cnt deckAddr discAddr h))),
       arrays (snd (drawCardsFromDeckH seeds cnt deckAddr discAddr h))
         (snd (fst (drawCardsFromDeckH seeds cnt deckAddr discAddr h)))) =
        drawCardsFromDeck seeds cnt (arrays h deckAddr) (arrays h discAddr)"
      using drawCardsFromDeckH_sim(1)[OF a, of seeds cnt] drawCardsFromDeckH_sim(3)[OF a, of seeds cnt]
      by (rule conjI)
  qed
  show ?thesis
    using drawCards_exhaust[of seeds dk m disc] piles store
    by (elim conjE, intro conjI) assumption+
qed

text \<open>
  A blue 7 tops a discard pile of three. Two cards are asked for and the draw pile is
  empty: the two cards below the blue 7 are drawn, and in the store the discard pile at
  address 1 is as before. Three cards are asked for and the draw pile holds a yellow 3:
  the yellow 3 and the same two cards are drawn. With the blue 7 alone on the discard
  pile, three cards asked for and one in the draw pile, one card is drawn.
\<close>

theorem drawCardsFromDeck_recycle_witness:
  "1 < length [red5, red9, blue7] \<and>
   last [red5, red9, blue7] \<notin> set ([]::card list) \<union> set (butlast [red5, red9, blue7]) \<and>
   fst (drawCardsFromDeck [[1]] 2 [] [red5, red9, blue7]) = [red5, red9] \<and>
   blue7 \<notin> set (fst (drawCardsFromDeck [[1]] 2 [] [red5, red9, blue7])) \<and>
   drawCardsFromDeck [[1]] 3 [yellow3] [red5, red9, blue7] = ([yellow3, red5, red9], []) \<and>
   length [blue7] \<le> 1 \<and> length [yellow3] < (3::nat) \<and>
   drawCardsFromDeck [] 3 [yellow3] [blue7] = ([yellow3], []) \<and>
   (0::nat) < fresh (twoPiles [] [red5, red9, blue7]) \<and>
   (1::nat) < fresh (twoPiles [] [red5, red9, blue7]) \<and>
   arrays (snd (drawCardsFromDeckH [[1]] 2 0 1 (twoPiles [] [red5, red9, blue7]))) 1 =
     [red5, red9, blue7] \<and>
   arrays (snd (drawCardsFromDeckH [[1]] 2 0 1 (twoPiles [] [red5, red9, blue7])))
     (fst (fst (drawCardsFromDeckH [[1]] 2 0 1 (twoPiles [] [red5, red9, blue7])))) =
     [red5, red9]"
  using drawCardsFromDeck_recycle[of "[[1]]" "[]" 0 "[red5, red9, blue7]" "[1]" "[]" 1 2
      0 "twoPiles [] [red5, red9, blue7]" 1]
    drawCardsFromDeck_recycle[of "[[1]]" "[yellow3]" 2 "[red5, red9, blue7]" "[1]" "[]" 1 3
      0 "twoPiles [yellow3] [red5, red9, blue7]" 1]
    drawCardsFromDeck_recycle[of "[]" "[yellow3]" 0 "[blue7]" "[]" "[]" 0 3
      0 "twoPiles [yellow3] [blue7]" 1]
  by code_simp

text \<open>
  Against C6 as stated: the drawn cards can include the top card of the discard pile.
  One card is asked for, the draw pile is empty, and the red 9 lies on top of the discard
  pile and at its bottom: the red 9 is drawn. The session \<open>recycleTwice\<close> has these piles;
  it comes from \<open>recycleStart\<close>, where no card is there twice, since cards recycled into
  the draw pile stay on the discard pile. Seat 3 has no card that fits, has to draw, and
  gets the top card of the discard pile.
\<close>

theorem drawCardsFromDeck_top_counterexample:
  "1 < length [red9, blue5, red5, red9] \<and>
   fst (drawCardsFromDeck [[1, 1]] 1 [] [red9, blue5, red5, red9]) = [red9] \<and>
   last [red9, blue5, red5, red9] \<in>
     set (fst (drawCardsFromDeck [[1, 1]] 1 [] [red9, blue5, red5, red9])) \<and>
   distinct (deck recycleStart @ discard recycleStart @ concat (hands recycleStart)) \<and>
   deck recycleTwice = [] \<and> discard recycleTwice = [red9, blue5, red5, red9] \<and>
   currentPlayerIdx recycleTwice = 3 \<and> validCards recycleTwice = [] \<and>
   hands (opponentTurn [[1, 1]] 0 recycleTwice) ! 3 =
     hands recycleTwice ! 3 @ [last (discard recycleTwice)]"
  by code_simp

section \<open>Rejected requests\<close>

text \<open>
  C8. An invalid request to play leaves the session as it is, or as it is with the
  selection cleared; a request to draw when it is not seat 0's turn or the session is
  over leaves the session as it is. So the draw pile, the discard pile, the hands, the
  active colour, the current seat, the direction and the terminal flag do not change.
\<close>

theorem rejected_request_noop:
  "(playRejected s \<longrightarrow>
      handlePlayerPlay seeds s = s \<or> handlePlayerPlay seeds s = s\<lparr>selectedCards := []\<rparr>) \<and>
   (currentPlayerIdx s \<noteq> 0 \<or> gameOver s \<longrightarrow> handlePlayerDraw seeds s = s)"
proof -
  have "handlePlayerPlay seeds s = s \<or> handlePlayerPlay seeds s = s\<lparr>selectedCards := []\<rparr>"
    if "playRejected s"
  proof (cases "selectedCardObjects s")
    case Nil
    then show ?thesis by (simp add: handlePlayerPlay_def Let_def)
  next
    case (Cons c cs)
    then show ?thesis using that
      by (auto simp add: handlePlayerPlay_def playRejected_def Let_def)
  qed
  moreover have "handlePlayerDraw seeds s = s" if "currentPlayerIdx s \<noteq> 0 \<or> gameOver s"
    using that by (simp add: handlePlayerDraw_def)
  ultimately show ?thesis by blast
qed

text \<open>
  A blue 7 and a blue 5 selected together are turned down and the selection is cleared;
  a request to draw while seat 1 is to move changes nothing.
\<close>

theorem rejected_request_noop_witness:
  "playRejected humanMixed \<and>
   handlePlayerPlay [] humanMixed = humanMixed\<lparr>selectedCards := []\<rparr> \<and>
   currentPlayerIdx opponentDraw2 \<noteq> 0 \<and>
   handlePlayerDraw [] opponentDraw2 = opponentDraw2"
  using rejected_request_noop[of humanMixed "[]"] rejected_request_noop[of opponentDraw2 "[]"]
  by code_simp

section \<open>Plays that make the next seat draw\<close>

lemma getNextPlayerIdx_range:
  assumes "cur < 4"
  shows "getNextPlayerIdx cur d < 4 \<and> getNextPlayerIdx cur d \<noteq> cur"
proof -
  from assms have "cur = 0 \<or> cur = 1 \<or> cur = 2 \<or> cur = 3" by arith
  then show ?thesis
    by (cases "d = 1") (auto simp: getNextPlayerIdx_def clockwiseOrder_def)
qed

lemma cardEffect_draw:
  assumes "cvalue (last cs) = StrV ''Draw2'' \<or> cvalue (last cs) = StrV ''Wild+4''"
  shows "cardEffect seeds seat dir dk cs nd nh =
           (getNextPlayerIdx seat dir, False, dir,
            nh[getNextPlayerIdx seat dir :=
                 nh ! getNextPlayerIdx seat dir @ fst (drawCardsFromDeck seeds (penaltyCount cs) dk nd)])"
  using assms by (auto simp: cardEffect_def penaltyCount_def Let_def mult.commute)

lemma topCardOf_Some: "topCardOf s \<noteq> None \<longleftrightarrow> discard s \<noteq> []"
  by (auto simp: topCardOf_def)

lemma canCardBePlayed_top: "canCardBePlayed c t a \<Longrightarrow> t \<noteq> None"
  by (auto simp: canCardBePlayed_def split: option.splits)

lemma accepted_facts:
  assumes "\<not> playRejected s"
  shows "currentPlayerIdx s = 0" "\<not> gameOver s" "selectedCards s \<noteq> []" "selectedCardObjects s \<noteq> []"
    "discard s \<noteq> []"
    "\<not> (length (selectedCardObjects s) > 1 \<and> \<not> list_all (\<lambda>c. cvalue c = cvalue (hd (selectedCardObjects s))) (selectedCardObjects s))"
    "canCardBePlayed (Some (hd (selectedCardObjects s))) (topCardOf s) (currentColor s)"
    "\<not> (ctype (hd (selectedCardObjects s)) = Wild \<and> selectedColor s = None)"
proof -
  obtain c cs where sel: "selectedCardObjects s = c # cs"
    using assms by (cases "selectedCardObjects s") (auto simp: playRejected_def)
  show "currentPlayerIdx s = 0" "\<not> gameOver s" "selectedCards s \<noteq> []" "selectedCardObjects s \<noteq> []"
    using assms sel by (auto simp: playRejected_def)
  show cp: "canCardBePlayed (Some (hd (selectedCardObjects s))) (topCardOf s) (currentColor s)"
    "\<not> (ctype (hd (selectedCardObjects s)) = Wild \<and> selectedColor s = None)"
    "\<not> (length (selectedCardObjects s) > 1 \<and> \<not> list_all (\<lambda>c. cvalue c = cvalue (hd (selectedCardObjects s))) (selectedCardObjects s))"
    using assms sel by (auto simp: playRejected_def)
  show "discard s \<noteq> []" using canCardBePlayed_top[OF cp(1)] topCardOf_Some[of s] by blast
qed

lemma handlePlayerPlay_accepted:
  assumes "\<not> playRejected s" and "removeSelected s \<noteq> []" and "hands s \<noteq> []"
  shows "handlePlayerPlay seeds s =
    (let sel = selectedCardObjects s;
         (nextPlayerIdx, skipNext, newDirection, newHands') =
            cardEffect seeds 0 (direction s) (deck s) sel (discard s @ sel) ((hands s)[0 := removeSelected s])
     in s\<lparr>hands := newHands', discard := discard s @ sel,
          currentColor := (if ctype (last sel) = Wild then selectedColor s else color (last sel)),
          currentPlayerIdx := nextPlayerIdx, direction := newDirection,
          skipNextPlayer := skipNext, message := MsgAiTurn,
          selectedColor := None, selectedCards := [], deck := deck s\<rparr>)"
proof -
  let ?sel = "selectedCardObjects s"
  note f = accepted_facts[OF assms(1)]
  have c1: "(currentPlayerIdx s \<noteq> 0 \<or> gameOver s) = False" using f(1,2) by simp
  have c2: "(selectedCards s = []) = False" using f(3) by simp
  have c3: "(?sel = []) = False" using f(4) by simp
  have c4: "(length ?sel > 1 \<and> \<not> list_all (\<lambda>c. cvalue c = cvalue (hd ?sel)) ?sel) = False"
    using f(6) by simp
  have c5: "(\<not> canCardBePlayed (Some (hd ?sel)) (topCardOf s) (currentColor s)) = False"
    using f(7) by simp
  have c6: "(ctype (hd ?sel) = Wild \<and> selectedColor s = None) = False" using f(8) by simp
  have c7: "((hands s)[0 := removeSelected s] ! 0 = []) = False" using assms(2,3) by simp
  show ?thesis
    by (simp only: handlePlayerPlay_def Let_def c1 c2 c3 c4 c5 c6 c7 if_False)
qed

lemma human_draw:
  assumes wf: "length (hands s) = 4"
    and acc: "\<not> playRejected s" and nw: "removeSelected s \<noteq> []"
    and pen: "cvalue (last (selectedCardObjects s)) = StrV ''Draw2'' \<or> cvalue (last (selectedCardObjects s)) = StrV ''Wild+4''"
  shows "length (fst (drawCardsFromDeck seeds (penaltyCount (selectedCardObjects s)) (deck s) (discard s @ selectedCardObjects s))) = penaltyCount (selectedCardObjects s)"
    and "hands (handlePlayerPlay seeds s) ! getNextPlayerIdx 0 (direction s) = hands s ! getNextPlayerIdx 0 (direction s) @ fst (drawCardsFromDeck seeds (penaltyCount (selectedCardObjects s)) (deck s) (discard s @ selectedCardObjects s))"
    and "currentPlayerIdx (handlePlayerPlay seeds s) = getNextPlayerIdx 0 (direction s)"
    and "\<not> gameOver (handlePlayerPlay seeds s)"
    and "deck (handlePlayerPlay seeds s) = deck s"
proof -
  let ?sel = "selectedCardObjects s"
  let ?nxt = "getNextPlayerIdx 0 (direction s)"
  have "1 < length (discard s @ ?sel)"
    using accepted_facts(4,5)[OF acc] by (cases "discard s"; cases ?sel) auto
  then show "length (fst (drawCardsFromDeck seeds (penaltyCount ?sel) (deck s) (discard s @ ?sel))) = penaltyCount ?sel"
    using drawLoop_length[of "discard s @ ?sel" "penaltyCount ?sel" seeds "deck s" "[]"]
    by (simp add: drawCardsFromDeck_def)
  have n: "?nxt < 4" "?nxt \<noteq> 0" using getNextPlayerIdx_range[of 0 "direction s"] by auto
  have hne: "hands s \<noteq> []" using wf by auto
  note eq = handlePlayerPlay_accepted[OF acc nw hne, of seeds]
  show "hands (handlePlayerPlay seeds s) ! ?nxt = hands s ! ?nxt @ fst (drawCardsFromDeck seeds (penaltyCount ?sel) (deck s) (discard s @ ?sel))"
    using n wf by (simp add: eq Let_def cardEffect_draw[OF pen])
  show "currentPlayerIdx (handlePlayerPlay seeds s) = ?nxt"
    by (simp add: eq Let_def cardEffect_draw[OF pen])
  show "\<not> gameOver (handlePlayerPlay seeds s)"
    using accepted_facts(2)[OF acc] by (simp add: eq Let_def cardEffect_draw[OF pen])
  show "deck (handlePlayerPlay seeds s) = deck s"
    by (simp add: eq Let_def cardEffect_draw[OF pen])
qed

lemma cardsToPlay_nonempty: "cardsToPlay s \<noteq> []"
  by (auto simp: cardsToPlay_def Let_def)

lemma validCards_discard: "validCards s \<noteq> [] \<Longrightarrow> discard s \<noteq> []"
proof -
  assume "validCards s \<noteq> []"
  then obtain c where "c \<in> set (validCards s)" by (cases "validCards s") auto
  then have "canCardBePlayed (Some c) (topCardOf s) (currentColor s)"
    by (simp add: validCards_def)
  then show ?thesis using canCardBePlayed_top topCardOf_Some[of s] by blast
qed

lemma opponentTurn_play:
  assumes "currentPlayerIdx s \<noteq> 0" and "\<not> gameOver s" and "validCards s \<noteq> []"
  shows "opponentTurn seeds rc s =
    (let cur = currentPlayerIdx s;
         newDiscard = discard s @ cardsToPlay s;
         newColor = (if ctype (last (cardsToPlay s)) = Wild then Some (COLORS ! (rc mod 4))
                     else color (last (cardsToPlay s)));
         (nextPlayerIdx, skipNext, newDirection, newHands') =
            cardEffect seeds cur (direction s) (deck s) (cardsToPlay s) newDiscard
              ((hands s)[cur := filter (\<lambda>c. c \<notin> set (cardsToPlay s)) (hands s ! cur)])
     in if newHands' ! cur = [] then
          s\<lparr>gameOver := True, winner := Some cur, message := MsgAiWon cur,
            hands := newHands', discard := newDiscard, currentColor := newColor\<rparr>
        else if skipNext then
          (let nextPlayerIdx' = getNextPlayerIdx nextPlayerIdx newDirection
           in s\<lparr>hands := newHands', discard := newDiscard, currentColor := newColor,
                direction := newDirection, deck := deck s,
                currentPlayerIdx := nextPlayerIdx',
                message := MsgSkipped cur nextPlayerIdx', skipNextPlayer := False\<rparr>)
        else
          s\<lparr>hands := newHands', discard := newDiscard, currentColor := newColor,
            direction := newDirection, skipNextPlayer := skipNext, deck := deck s,
            currentPlayerIdx := nextPlayerIdx, message := MsgYourTurn\<rparr>)"
proof -
  have c1: "(currentPlayerIdx s = 0 \<or> gameOver s) = False" using assms(1,2) by simp
  have c2: "(validCards s = []) = False" using assms(3) by simp
  show ?thesis
    by (simp only: opponentTurn_def Let_def c1 c2 if_False)
qed

lemma opponent_draw:
  assumes wf: "length (hands s) = 4"
    and cur: "currentPlayerIdx s \<in> {1, 2, 3}" and go: "\<not> gameOver s"
    and vc: "validCards s \<noteq> []"
    and nw: "filter (\<lambda>c. c \<notin> set (cardsToPlay s)) (hands s ! currentPlayerIdx s) \<noteq> []"
    and pen: "cvalue (last (cardsToPlay s)) = StrV ''Draw2'' \<or> cvalue (last (cardsToPlay s)) = StrV ''Wild+4''"
  shows "length (fst (drawCardsFromDeck seeds (penaltyCount (cardsToPlay s)) (deck s) (discard s @ cardsToPlay s))) = penaltyCount (cardsToPlay s)"
    and "hands (opponentTurn seeds rc s) ! getNextPlayerIdx (currentPlayerIdx s) (direction s) = hands s ! getNextPlayerIdx (currentPlayerIdx s) (direction s) @ fst (drawCardsFromDeck seeds (penaltyCount (cardsToPlay s)) (deck s) (discard s @ cardsToPlay s))"
    and "currentPlayerIdx (opponentTurn seeds rc s) = getNextPlayerIdx (currentPlayerIdx s) (direction s)"
    and "\<not> gameOver (opponentTurn seeds rc s)"
    and "deck (opponentTurn seeds rc s) = deck s"
proof -
  let ?cs = "cardsToPlay s"
  let ?cur = "currentPlayerIdx s"
  let ?nxt = "getNextPlayerIdx ?cur (direction s)"
  have "1 < length (discard s @ ?cs)"
    using validCards_discard[OF vc] cardsToPlay_nonempty[of s] by (cases "discard s"; cases ?cs) auto
  then show "length (fst (drawCardsFromDeck seeds (penaltyCount ?cs) (deck s) (discard s @ ?cs))) = penaltyCount ?cs"
    using drawLoop_length[of "discard s @ ?cs" "penaltyCount ?cs" seeds "deck s" "[]"]
    by (simp add: drawCardsFromDeck_def)
  have c4: "?cur < 4" "?cur \<noteq> 0" using cur by auto
  have n: "?nxt < 4" "?nxt \<noteq> ?cur" using getNextPlayerIdx_range[OF c4(1), of "direction s"] by auto
  note eq = opponentTurn_play[OF c4(2) go vc, of seeds rc]
  have stay: "((hands s)[?cur := filter (\<lambda>c. c \<notin> set ?cs) (hands s ! ?cur)])
               [?nxt := X] ! ?cur \<noteq> []" for X
    using n c4 wf nw by simp
  show "hands (opponentTurn seeds rc s) ! ?nxt = hands s ! ?nxt @ fst (drawCardsFromDeck seeds (penaltyCount ?cs) (deck s) (discard s @ ?cs))"
    using n wf by (simp add: eq Let_def cardEffect_draw[OF pen] stay)
  show "currentPlayerIdx (opponentTurn seeds rc s) = ?nxt"
    by (simp add: eq Let_def cardEffect_draw[OF pen] stay)
  show "\<not> gameOver (opponentTurn seeds rc s)"
    using go by (simp add: eq Let_def cardEffect_draw[OF pen] stay)
  show "deck (opponentTurn seeds rc s) = deck s"
    by (simp add: eq Let_def cardEffect_draw[OF pen] stay)
qed

text \<open>
  C3, as the code has it. In a session with four hands, after an accepted play that
  does not empty the hand and whose last card is a Draw2 (a Wild+4), be it the human's
  or an opponent's, the hand of the next seat in the current direction is its old hand
  followed by the cards that \<open>drawCardsFromDeck\<close> returns for twice the number of Draw2
  cards (four times the number of Wild+4 cards) of the play, which are exactly that
  many; and that seat, the one that drew, is the current seat.
\<close>

theorem draw_penalty_resolution:
  assumes "length (hands s) = 4"
  shows
    "(\<not> playRejected s \<and> removeSelected s \<noteq> [] \<and>
      (cvalue (last (selectedCardObjects s)) = StrV ''Draw2'' \<or>
       cvalue (last (selectedCardObjects s)) = StrV ''Wild+4'') \<longrightarrow>
        length (fst (drawCardsFromDeck seeds (penaltyCount (selectedCardObjects s)) (deck s)
                  (discard s @ selectedCardObjects s))) = penaltyCount (selectedCardObjects s) \<and>
        hands (handlePlayerPlay seeds s) ! getNextPlayerIdx 0 (direction s) =
          hands s ! getNextPlayerIdx 0 (direction s) @
          fst (drawCardsFromDeck seeds (penaltyCount (selectedCardObjects s)) (deck s)
                 (discard s @ selectedCardObjects s)) \<and>
        currentPlayerIdx (handlePlayerPlay seeds s) = getNextPlayerIdx 0 (direction s) \<and>
        \<not> gameOver (handlePlayerPlay seeds s)) \<and>
     (currentPlayerIdx s \<in> {1, 2, 3} \<and> \<not> gameOver s \<and> validCards s \<noteq> [] \<and>
      filter (\<lambda>c. c \<notin> set (cardsToPlay s)) (hands s ! currentPlayerIdx s) \<noteq> [] \<and>
      (cvalue (last (cardsToPlay s)) = StrV ''Draw2'' \<or>
       cvalue (last (cardsToPlay s)) = StrV ''Wild+4'') \<longrightarrow>
        length (fst (drawCardsFromDeck seeds (penaltyCount (cardsToPlay s)) (deck s)
                  (discard s @ cardsToPlay s))) = penaltyCount (cardsToPlay s) \<and>
        hands (opponentTurn seeds rc s) ! getNextPlayerIdx (currentPlayerIdx s) (direction s) =
          hands s ! getNextPlayerIdx (currentPlayerIdx s) (direction s) @
          fst (drawCardsFromDeck seeds (penaltyCount (cardsToPlay s)) (deck s)
                 (discard s @ cardsToPlay s)) \<and>
        currentPlayerIdx (opponentTurn seeds rc s) =
          getNextPlayerIdx (currentPlayerIdx s) (direction s) \<and>
        \<not> gameOver (opponentTurn seeds rc s))"
proof (intro conjI impI; elim conjE)
  assume a: "\<not> playRejected s" "removeSelected s \<noteq> []"
    "cvalue (last (selectedCardObjects s)) = StrV ''Draw2'' \<or>
     cvalue (last (selectedCardObjects s)) = StrV ''Wild+4''"
  note h = human_draw[OF assms a, where seeds = seeds]
  show "length (fst (drawCardsFromDeck seeds (penaltyCount (selectedCardObjects s)) (deck s)
                  (discard s @ selectedCardObjects s))) = penaltyCount (selectedCardObjects s)"
    by (rule h(1))
  show "hands (handlePlayerPlay seeds s) ! getNextPlayerIdx 0 (direction s) =
          hands s ! getNextPlayerIdx 0 (direction s) @
          fst (drawCardsFromDeck seeds (penaltyCount (selectedCardObjects s)) (deck s)
                 (discard s @ selectedCardObjects s))"
    by (rule h(2))
  show "currentPlayerIdx (handlePlayerPlay seeds s) = getNextPlayerIdx 0 (direction s)"
    by (rule h(3))
  show "\<not> gameOver (handlePlayerPlay seeds s)"
    by (rule h(4))
next
  assume a: "currentPlayerIdx s \<in> {1, 2, 3}" "\<not> gameOver s" "validCards s \<noteq> []"
    "filter (\<lambda>c. c \<notin> set (cardsToPlay s)) (hands s ! currentPlayerIdx s) \<noteq> []"
    "cvalue (last (cardsToPlay s)) = StrV ''Draw2'' \<or>
     cvalue (last (cardsToPlay s)) = StrV ''Wild+4''"
  note p = opponent_draw[OF assms a, where seeds = seeds]
  show "length (fst (drawCardsFromDeck seeds (penaltyCount (cardsToPlay s)) (deck s)
                  (discard s @ cardsToPlay s))) = penaltyCount (cardsToPlay s)"
    by (rule p(1))
  show "hands (opponentTurn seeds rc s) ! getNextPlayerIdx (currentPlayerIdx s) (direction s) =
          hands s ! getNextPlayerIdx (currentPlayerIdx s) (direction s) @
          fst (drawCardsFromDeck seeds (penaltyCount (cardsToPlay s)) (deck s)
                 (discard s @ cardsToPlay s))"
    by (rule p(2))
  show "currentPlayerIdx (opponentTurn seeds rc s) =
          getNextPlayerIdx (currentPlayerIdx s) (direction s)"
    by (rule p(3))
  show "\<not> gameOver (opponentTurn seeds rc s)"
    by (rule p(4))
qed

text \<open>
  The human plays a red Draw2 and keeps a blue 7: seat 3 gets two cards and is the
  current seat. The human plays a Wild+4 with yellow chosen: seat 3 gets four cards, the
  three of the draw pile and the red 5 recycled from the discard pile, and is the
  current seat. Seat 1 plays a red Draw2 and keeps a green 1: seat 2 gets two cards and
  is the current seat.
\<close>

theorem draw_penalty_resolution_witness:
  "length (hands humanDraw2) = 4 \<and> \<not> playRejected humanDraw2 \<and>
   removeSelected humanDraw2 \<noteq> [] \<and>
   cvalue (last (selectedCardObjects humanDraw2)) = StrV ''Draw2'' \<and>
   penaltyCount (selectedCardObjects humanDraw2) = 2 \<and>
   getNextPlayerIdx 0 (direction humanDraw2) = 3 \<and>
   hands (handlePlayerPlay [] humanDraw2) ! 3 = [red9, yellow6, yellow4] \<and>
   currentPlayerIdx (handlePlayerPlay [] humanDraw2) = 3 \<and>
   length (hands humanWild4) = 4 \<and> \<not> playRejected humanWild4 \<and>
   removeSelected humanWild4 \<noteq> [] \<and>
   cvalue (last (selectedCardObjects humanWild4)) = StrV ''Wild+4'' \<and>
   penaltyCount (selectedCardObjects humanWild4) = 4 \<and>
   hands (handlePlayerPlay [] humanWild4) ! 3 = [red9, yellow6, yellow4, yellow3, red5] \<and>
   currentPlayerIdx (handlePlayerPlay [] humanWild4) = 3 \<and>
   length (hands opponentDraw2) = 4 \<and> currentPlayerIdx opponentDraw2 \<in> {1, 2, 3} \<and>
   \<not> gameOver opponentDraw2 \<and> validCards opponentDraw2 \<noteq> [] \<and>
   filter (\<lambda>c. c \<notin> set (cardsToPlay opponentDraw2))
     (hands opponentDraw2 ! currentPlayerIdx opponentDraw2) \<noteq> [] \<and>
   cvalue (last (cardsToPlay opponentDraw2)) = StrV ''Draw2'' \<and>
   getNextPlayerIdx (currentPlayerIdx opponentDraw2) (direction opponentDraw2) = 2 \<and>
   hands (opponentTurn [] 0 opponentDraw2) ! 2 = [green2, yellow6, yellow4] \<and>
   currentPlayerIdx (opponentTurn [] 0 opponentDraw2) = 2"
  using draw_penalty_resolution[of humanDraw2 "[]" 0]
    draw_penalty_resolution[of humanWild4 "[]" 0]
    draw_penalty_resolution[of opponentDraw2 "[]" 0]
  by code_simp

text \<open>
  Against C3 as stated: after the human's accepted, non-winning red Draw2 the current
  seat is seat 3, the seat that drew, and not seat 1, the seat after it; and seat 3 acts
  at once, playing its red 9.
\<close>

theorem draw_penalty_turn_counterexample:
  "\<not> playRejected humanDraw2 \<and> removeSelected humanDraw2 \<noteq> [] \<and>
   cvalue (last (selectedCardObjects humanDraw2)) = StrV ''Draw2'' \<and>
   getNextPlayerIdx 0 (direction humanDraw2) = 3 \<and>
   getNextPlayerIdx (getNextPlayerIdx 0 (direction humanDraw2)) (direction humanDraw2) = 1 \<and>
   currentPlayerIdx (handlePlayerPlay [] humanDraw2) = 3 \<and>
   currentPlayerIdx (handlePlayerPlay [] humanDraw2) \<noteq>
     getNextPlayerIdx (getNextPlayerIdx 0 (direction humanDraw2)) (direction humanDraw2) \<and>
   discard (opponentTurn [] 0 (handlePlayerPlay [] humanDraw2)) = [red5, redDraw2, red9]"
  by code_simp

section \<open>Card conservation\<close>

text \<open>
  Where the human draws a card from a draw pile that is not empty, the card moves from
  the pile to the hand and nothing else changes: \<^verbatim>\<open>handlePlayerDraw\<close> commits the
  reduced pile \<^verbatim>\<open>newDeck\<close> that \<open>drawCardsFromDeck\<close> returns.
\<close>

lemma mset_concat_update:
  "i < length hs \<Longrightarrow> mset (concat (hs[i := hs ! i @ xs])) = mset (concat hs) + mset xs"
proof -
  assume i: "i < length hs"
  have a: "hs[i := hs ! i @ xs] = take i hs @ (hs ! i @ xs) # drop (Suc i) hs"
    using i by (rule upd_conv_take_nth_drop)
  have b: "hs = take i hs @ hs ! i # drop (Suc i) hs"
    using i by (rule id_take_nth_drop)
  have "mset (concat (take i hs @ (hs ! i @ xs) # drop (Suc i) hs)) =
        mset (concat (take i hs @ hs ! i # drop (Suc i) hs)) + mset xs"
    by simp
  then show ?thesis using a b by metis
qed

lemma handlePlayerDraw_conserves:
  assumes "hands s \<noteq> []" and "deck s \<noteq> []" and "currentPlayerIdx s = 0" and "\<not> gameOver s"
  shows "allCards (handlePlayerDraw seeds s) = allCards s"
proof -
  obtain ys y where dk: "deck s = ys @ [y]" using assms(2) by (metis rev_exhaust)
  have d: "drawCardsFromDeck seeds (Suc 0) (ys @ [y]) (discard s) = ([y], ys)"
    by (simp add: drawCardsFromDeck_def)
  have "0 < length (hands s)" using assms(1) by simp
  then have "mset (concat ((hands s)[0 := hands s ! 0 @ [y]])) = mset (concat (hands s)) + mset [y]"
    by (rule mset_concat_update)
  then show ?thesis
    using assms(3,4) by (simp add: handlePlayerDraw_def d allCards_def dk)
qed

text \<open>
  C1 fails on the code. The human plays a red Draw2 and keeps a blue 7: the play is
  accepted, seat 3 receives the yellow 6 and the yellow 4 from the top of the draw pile,
  and the draw pile still holds both. The session had 9 cards and has 11 afterwards.
\<close>

theorem humanDraw2_cards_duplicated:
  "\<not> playRejected humanDraw2 \<and> \<not> gameOver (handlePlayerPlay [] humanDraw2) \<and>
   deck (handlePlayerPlay [] humanDraw2) = deck humanDraw2 \<and>
   deck humanDraw2 = [yellow3, yellow4, yellow6] \<and>
   hands (handlePlayerPlay [] humanDraw2) ! 3 = hands humanDraw2 ! 3 @ [yellow6, yellow4] \<and>
   allCards (handlePlayerPlay [] humanDraw2) = allCards humanDraw2 + {#yellow6, yellow4#} \<and>
   allCards (handlePlayerPlay [] humanDraw2) \<noteq> allCards humanDraw2 \<and>
   size (allCards humanDraw2) = 9 \<and> size (allCards (handlePlayerPlay [] humanDraw2)) = 11"
  by code_simp

text \<open>The play adds two cards to the session.\<close>

theorem humanDraw2_cards_duplicated_witness:
  "size (allCards (handlePlayerPlay [] humanDraw2)) = size (allCards humanDraw2) + 2"
  using humanDraw2_cards_duplicated by simp

text \<open>
  The same on the first move of a fresh game, where the human plays a Wild+4: the 108
  cards of the deck have become 112.
\<close>

lemma firstMove_cards_duplicated:
  "size (allCards firstMove) = 108 \<and>
   size (allCards (handlePlayerPlay [] firstMove)) = 112"
  by code_simp

section \<open>Winning plays\<close>

text \<open>
  The human's winning play: \<^verbatim>\<open>handlePlayerPlay\<close> tests for the empty hand before the
  effect chain, so the play ends the session and changes nothing but seat 0's hand, the
  discard pile and the active colour.
\<close>

lemma human_win:
  assumes acc: "\<not> playRejected s" and win: "removeSelected s = []" and wf: "hands s \<noteq> []"
  shows "handlePlayerPlay seeds s =
           s\<lparr>gameOver := True, winner := Some 0, message := MsgYouWon,
             hands := (hands s)[0 := []],
             discard := discard s @ selectedCardObjects s,
             currentColor := (if ctype (last (selectedCardObjects s)) = Wild then selectedColor s
                              else color (last (selectedCardObjects s)))\<rparr>"
proof -
  let ?sel = "selectedCardObjects s"
  note f = accepted_facts[OF acc]
  have c1: "(currentPlayerIdx s \<noteq> 0 \<or> gameOver s) = False" using f(1,2) by simp
  have c2: "(selectedCards s = []) = False" using f(3) by simp
  have c3: "(?sel = []) = False" using f(4) by simp
  have c4: "(length ?sel > 1 \<and> \<not> list_all (\<lambda>c. cvalue c = cvalue (hd ?sel)) ?sel) = False"
    using f(6) by simp
  have c5: "(\<not> canCardBePlayed (Some (hd ?sel)) (topCardOf s) (currentColor s)) = False"
    using f(7) by simp
  have c6: "(ctype (hd ?sel) = Wild \<and> selectedColor s = None) = False" using f(8) by simp
  have c7: "((hands s)[0 := []] ! 0 = []) = True" using wf by simp
  show ?thesis
    by (simp only: handlePlayerPlay_def Let_def c1 c2 c3 c4 c5 c6 c7 if_False if_True win)
qed

text \<open>
  C2 fails on the code for an opponent. Seat 1 plays its last card, a red Draw2: the
  session is over and seat 1 has won, but seat 2, the next seat, has received two cards
  all the same.
\<close>

theorem opponent_win_applies_draw:
  "currentPlayerIdx opponentLastDraw2 = 1 \<and> hands opponentLastDraw2 ! 1 = [redDraw2] \<and>
   gameOver (opponentTurn [] 0 opponentLastDraw2) \<and>
   winner (opponentTurn [] 0 opponentLastDraw2) = Some 1 \<and>
   hands (opponentTurn [] 0 opponentLastDraw2) ! 1 = [] \<and>
   getNextPlayerIdx 1 (direction opponentLastDraw2) = 2 \<and>
   hands opponentLastDraw2 ! 2 = [green2] \<and>
   hands (opponentTurn [] 0 opponentLastDraw2) ! 2 = [green2, yellow6, yellow4]"
  by code_simp

text \<open>The hand of seat 2 has grown by two although seat 1 has won.\<close>

theorem opponent_win_applies_draw_witness:
  "winner (opponentTurn [] 0 opponentLastDraw2) = Some 1 \<and>
   length (hands (opponentTurn [] 0 opponentLastDraw2) ! 2) =
     length (hands opponentLastDraw2 ! 2) + 2"
  using opponent_win_applies_draw by simp

section \<open>Skip\<close>

text \<open>
  An opponent's Skip passes over the next seat. The human's Skip makes the next seat
  current and sets \<open>skipNextPlayer\<close>, and the opponent effect does not depend on that
  flag.
\<close>

lemma cardEffect_skip:
  "cvalue (last cs) = StrV ''Skip'' \<Longrightarrow>
     cardEffect seeds seat dir dk cs nd nh = (getNextPlayerIdx seat dir, True, dir, nh)"
  by (simp add: cardEffect_def Let_def)

lemma opponent_skip:
  assumes wf: "length (hands s) = 4"
    and cur: "currentPlayerIdx s \<in> {1, 2, 3}" and go: "\<not> gameOver s"
    and vc: "validCards s \<noteq> []"
    and nw: "filter (\<lambda>c. c \<notin> set (cardsToPlay s)) (hands s ! currentPlayerIdx s) \<noteq> []"
    and sk: "cvalue (last (cardsToPlay s)) = StrV ''Skip''"
  shows "currentPlayerIdx (opponentTurn seeds rc s) =
           getNextPlayerIdx (getNextPlayerIdx (currentPlayerIdx s) (direction s)) (direction s)"
    and "hands (opponentTurn seeds rc s) =
           (hands s)[currentPlayerIdx s :=
              filter (\<lambda>c. c \<notin> set (cardsToPlay s)) (hands s ! currentPlayerIdx s)]"
proof -
  have c: "currentPlayerIdx s \<noteq> 0" "currentPlayerIdx s < 4" using cur by auto
  note eq = opponentTurn_play[OF c(1) go vc, of seeds rc]
  have stay: "(hands s)[currentPlayerIdx s :=
                 filter (\<lambda>c. c \<notin> set (cardsToPlay s)) (hands s ! currentPlayerIdx s)]
               ! currentPlayerIdx s \<noteq> []"
    using c wf nw by simp
  show "currentPlayerIdx (opponentTurn seeds rc s) =
           getNextPlayerIdx (getNextPlayerIdx (currentPlayerIdx s) (direction s)) (direction s)"
    by (simp add: eq Let_def cardEffect_skip[OF sk] stay)
  show "hands (opponentTurn seeds rc s) =
           (hands s)[currentPlayerIdx s :=
              filter (\<lambda>c. c \<notin> set (cardsToPlay s)) (hands s ! currentPlayerIdx s)]"
    by (simp add: eq Let_def cardEffect_skip[OF sk] stay)
qed

lemma human_skip:
  assumes wf: "length (hands s) = 4"
    and acc: "\<not> playRejected s" and nw: "removeSelected s \<noteq> []"
    and sk: "cvalue (last (selectedCardObjects s)) = StrV ''Skip''"
  shows "currentPlayerIdx (handlePlayerPlay seeds s) = getNextPlayerIdx 0 (direction s)"
    and "skipNextPlayer (handlePlayerPlay seeds s)"
proof -
  have hne: "hands s \<noteq> []" using wf by auto
  note eq = handlePlayerPlay_accepted[OF acc nw hne, of seeds]
  show "currentPlayerIdx (handlePlayerPlay seeds s) = getNextPlayerIdx 0 (direction s)"
    by (simp add: eq Let_def cardEffect_skip[OF sk])
  show "skipNextPlayer (handlePlayerPlay seeds s)"
    by (simp add: eq Let_def cardEffect_skip[OF sk])
qed

lemma validCards_flag: "validCards (s\<lparr>skipNextPlayer := b\<rparr>) = validCards s"
  by (simp add: validCards_def topCardOf_def)

lemma cardsToPlay_flag: "cardsToPlay (s\<lparr>skipNextPlayer := b\<rparr>) = cardsToPlay s"
  by (simp add: cardsToPlay_def validCards_flag)

lemma opponentTurn_ignores_flag:
  "\<exists>b'. opponentTurn seeds rc (s\<lparr>skipNextPlayer := b\<rparr>) =
         (opponentTurn seeds rc s)\<lparr>skipNextPlayer := b'\<rparr>"
proof -
  have "opponentTurn seeds rc (s\<lparr>skipNextPlayer := b\<rparr>) =
         (opponentTurn seeds rc s)\<lparr>skipNextPlayer :=
            skipNextPlayer (opponentTurn seeds rc (s\<lparr>skipNextPlayer := b\<rparr>))\<rparr>"
    by (simp add: opponentTurn_def validCards_flag cardsToPlay_flag Let_def
          split: prod.splits)
  then show ?thesis by blast
qed

text \<open>
  C4 fails on the code for the human. The human plays a red Skip and keeps a blue 7:
  the play is accepted, \<open>skipNextPlayer\<close> is set, and the current seat is seat 3, the
  next seat, not seat 1, the seat after it. The opponent effect then runs for seat 3,
  which plays its red 9.
\<close>

theorem human_skip_not_applied:
  "\<not> playRejected humanSkip \<and> removeSelected humanSkip \<noteq> [] \<and>
   cvalue (last (selectedCardObjects humanSkip)) = StrV ''Skip'' \<and>
   getNextPlayerIdx 0 (direction humanSkip) = 3 \<and>
   getNextPlayerIdx (getNextPlayerIdx 0 (direction humanSkip)) (direction humanSkip) = 1 \<and>
   currentPlayerIdx (handlePlayerPlay [] humanSkip) = 3 \<and>
   skipNextPlayer (handlePlayerPlay [] humanSkip) \<and>
   hands (handlePlayerPlay [] humanSkip) ! 3 = [red9, blue5] \<and>
   hands (opponentTurn [] 0 (handlePlayerPlay [] humanSkip)) ! 3 = [blue5] \<and>
   discard (opponentTurn [] 0 (handlePlayerPlay [] humanSkip)) = [red5, redSkip, red9]"
  by code_simp

text \<open>The seat that should have been passed over is current and has played.\<close>

theorem human_skip_not_applied_witness:
  "currentPlayerIdx (handlePlayerPlay [] humanSkip) = getNextPlayerIdx 0 (direction humanSkip) \<and>
   skipNextPlayer (handlePlayerPlay [] humanSkip) \<and>
   length (discard (opponentTurn [] 0 (handlePlayerPlay [] humanSkip))) = 3"
  using human_skip_not_applied by simp

end
